theory Spec2Isabelle
  imports Main "HOL-Library.Sublist"
begin

section \<open>Go standard-library string and path functions\<close>

text \<open>
  Go strings are byte sequences; they are modelled as \<open>string\<close> (a list of 8-bit
  characters). The functions of this section are the ones of packages \<open>strings\<close> and
  \<open>path\<close> that the image package calls, written after their documented behaviour.
\<close>

text \<open>\<open>strings.Split(s, string(c))\<close> for a one-byte separator: never the empty list.\<close>

fun split_on :: "char \<Rightarrow> string \<Rightarrow> string list" where
  "split_on c [] = [[]]"
| "split_on c (x # xs) =
     (if x = c then [] # split_on c xs
      else (case split_on c xs of [] \<Rightarrow> [[x]] | y # ys \<Rightarrow> (x # y) # ys))"

text \<open>
  \<open>strings.SplitN(s, ":", 2)\<close>: the text before the first colon and everything after
  it, or the whole string alone when it has no colon.
\<close>

definition strings_SplitN2 :: "char \<Rightarrow> string \<Rightarrow> string list" where
  "strings_SplitN2 c s =
     (if c \<in> set s then [takeWhile (\<lambda>x. x \<noteq> c) s, tl (dropWhile (\<lambda>x. x \<noteq> c) s)]
      else [s])"

definition strings_HasPrefix :: "string \<Rightarrow> string \<Rightarrow> bool" where
  "strings_HasPrefix s p = (take (length p) s = p)"

definition strings_TrimPrefix :: "string \<Rightarrow> string \<Rightarrow> string" where
  "strings_TrimPrefix s p = (if strings_HasPrefix s p then drop (length p) s else s)"

text \<open>\<open>strings.ContainsRune(s, '/')\<close>: for an ASCII rune this is a byte search.\<close>

definition strings_ContainsRune :: "string \<Rightarrow> char \<Rightarrow> bool" where
  "strings_ContainsRune s c = (c \<in> set s)"

text \<open>
  \<open>strings.TrimSpace\<close> removes leading and trailing white space as defined by Unicode.
  The list holds the UTF-8 encodings of every rune for which \<open>unicode.IsSpace\<close> holds:
  tab, line feed, vertical tab, form feed, carriage return, space, U+0085, U+00A0,
  U+1680, U+2000 to U+200A, U+2028, U+2029, U+202F, U+205F and U+3000.
\<close>

definition space_encodings :: "string list" where
  "space_encodings =
     [[CHR 0x09], [CHR 0x0A], [CHR 0x0B], [CHR 0x0C], [CHR 0x0D], [CHR 0x20],
      [CHR 0xC2, CHR 0x85], [CHR 0xC2, CHR 0xA0],
      [CHR 0xE1, CHR 0x9A, CHR 0x80],
      [CHR 0xE2, CHR 0x80, CHR 0x80], [CHR 0xE2, CHR 0x80, CHR 0x81],
      [CHR 0xE2, CHR 0x80, CHR 0x82], [CHR 0xE2, CHR 0x80, CHR 0x83],
      [CHR 0xE2, CHR 0x80, CHR 0x84], [CHR 0xE2, CHR 0x80, CHR 0x85],
      [CHR 0xE2, CHR 0x80, CHR 0x86], [CHR 0xE2, CHR 0x80, CHR 0x87],
      [CHR 0xE2, CHR 0x80, CHR 0x88], [CHR 0xE2, CHR 0x80, CHR 0x89],
      [CHR 0xE2, CHR 0x80, CHR 0x8A],
      [CHR 0xE2, CHR 0x80, CHR 0xA8], [CHR 0xE2, CHR 0x80, CHR 0xA9],
      [CHR 0xE2, CHR 0x80, CHR 0xAF],
      [CHR 0xE2, CHR 0x81, CHR 0x9F],
      [CHR 0xE3, CHR 0x80, CHR 0x80]]"

text \<open>The encoded white-space rune that \<open>s\<close> starts with, if it starts with one.\<close>

definition leading_space :: "string \<Rightarrow> string option" where
  "leading_space s = find (\<lambda>p. strings_HasPrefix s p) space_encodings"

function trim_left_space :: "string \<Rightarrow> string" where
  "trim_left_space s =
     (case leading_space s of
        None \<Rightarrow> s
      | Some p \<Rightarrow> trim_left_space (drop (length p) s))"
  by pat_completeness auto
termination
proof (relation "measure length")
  show "wf (measure length)" by simp
next
  fix s p
  assume "leading_space s = Some p"
  then have mem: "p \<in> set space_encodings" and pre: "strings_HasPrefix s p"
    by (auto simp: leading_space_def find_Some_iff)
  from mem have "0 < length p"
    by (auto simp: space_encodings_def)
  moreover from pre have "length p \<le> length s"
    by (metis strings_HasPrefix_def length_take min.cobounded1)
  ultimately have "length s - length p < length s"
    by arith
  then show "(drop (length p) s, s) \<in> measure length"
    by simp
qed

text \<open>
  A trailing rune is decoded backwards from the end of the string; a string ends with a
  white-space rune exactly when it ends with one of the encodings, so the right trim is
  the left trim of the byte-reversed string against the reversed encodings.
\<close>

definition trailing_space :: "string \<Rightarrow> string option" where
  "trailing_space s = find (\<lambda>p. strings_HasPrefix (rev s) (rev p)) space_encodings"

function trim_right_space :: "string \<Rightarrow> string" where
  "trim_right_space s =
     (case trailing_space s of
        None \<Rightarrow> s
      | Some p \<Rightarrow> trim_right_space (take (length s - length p) s))"
  by pat_completeness auto
termination
proof (relation "measure length")
  show "wf (measure length)" by simp
next
  fix s p
  assume "trailing_space s = Some p"
  then have mem: "p \<in> set space_encodings"
    and pre: "strings_HasPrefix (rev s) (rev p)"
    by (auto simp: trailing_space_def find_Some_iff)
  from mem have "0 < length p"
    by (auto simp: space_encodings_def)
  moreover from pre have "length p \<le> length s"
    by (metis strings_HasPrefix_def length_take min.cobounded1 length_rev)
  ultimately have "length s - length p < length s"
    by arith
  then show "(take (length s - length p) s, s) \<in> measure length"
    by simp
qed

definition strings_TrimSpace :: "string \<Rightarrow> string" where
  "strings_TrimSpace s = trim_right_space (trim_left_space s)"

text \<open>
  \<open>path.Clean\<close>: multiple slashes become one, \<open>.\<close> elements go, an inner \<open>..\<close> goes
  together with the element before it, a \<open>..\<close> at the start of a rooted path goes, and
  the empty result is \<open>.\<close>. The elements kept so far are a stack.
\<close>

definition clean_step :: "bool \<Rightarrow> string list \<Rightarrow> string \<Rightarrow> string list" where
  "clean_step rooted stack c =
     (if c = ''..'' then
        (if stack \<noteq> [] \<and> last stack \<noteq> ''..'' then butlast stack
         else if rooted then stack
         else stack @ [c])
      else stack @ [c])"

fun join_slash :: "string list \<Rightarrow> string" where
  "join_slash [] = []"
| "join_slash [x] = x"
| "join_slash (x # y # ys) = x @ ''/'' @ join_slash (y # ys)"

definition path_elements :: "string \<Rightarrow> string list" where
  "path_elements p = filter (\<lambda>c. c \<noteq> [] \<and> c \<noteq> ''.'') (split_on CHR ''/'' p)"

definition path_Clean :: "string \<Rightarrow> string" where
  "path_Clean p =
     (if p = [] then ''.''
      else
        (let rooted = (hd p = CHR ''/'');
             out = foldl (clean_step rooted) [] (path_elements p);
             s = (if rooted then ''/'' else []) @ join_slash out
         in if s = [] then ''.'' else s))"

text \<open>
  \<open>path.Join\<close>: leading empty elements are dropped, the rest is joined with slashes and
  cleaned; with no non-empty element the result is the empty string.
\<close>

definition path_Join :: "string list \<Rightarrow> string" where
  "path_Join elem =
     (case dropWhile (\<lambda>e. e = []) elem of
        [] \<Rightarrow> []
      | e # es \<Rightarrow> path_Clean (join_slash (e # es)))"

section \<open>Data model of the image package\<close>

text \<open>
  A Go \<open>error\<close> is a value built by \<open>errors.New\<close>, \<open>errors.Errorf\<close> or
  \<open>errors.Wrapf\<close> (format string and arguments kept as they are passed), or one of
  the sentinel values the daemon compares against. Errors coming out of a library call
  are values of the same type, supplied by the environment.
\<close>

datatype fmtarg = ArgString string | ArgStrings "string list" | ArgError "error option"
and error =
    io_EOF
  | context_Canceled
  | context_DeadlineExceeded
  | errors_New string
  | errors_Errorf string "fmtarg list"
  | errors_Wrapf error string "fmtarg list"

text \<open>
  Modelled from the spec: the constants of package \<open>constant\<close> are not part of the
  sources at hand; the spec names the transport identifiers \<open>docker\<close>,
  \<open>docker-archive\<close> and \<open>oci-archive\<close> and the default tag \<open>latest\<close>.
\<close>

definition DockerTransport :: string where
  "DockerTransport = ''docker''"

definition DockerArchiveTransport :: string where
  "DockerArchiveTransport = ''docker-archive''"

definition OCIArchiveTransport :: string where
  "OCIArchiveTransport = ''oci-archive''"

definition DefaultTag :: string where
  "DefaultTag = ''latest''"

text \<open>\<open>storage.Image\<close>: the record the local store keeps for an image.\<close>

record Image =
  ID :: string
  Names :: "string list"

text \<open>
  \<open>reference.Named\<close>: a parsed docker reference. \<open>Tag\<close> and \<open>Digest\<close> are present
  exactly when the Go value implements \<open>Tagged\<close> and \<open>Digested\<close>.
\<close>

record Named =
  Domain :: string
  Path :: string
  Tag :: "string option"
  Digest :: "string option"

definition Named_Name :: "Named \<Rightarrow> string" where
  "Named_Name n = (if Domain n = [] then Path n else Domain n @ ''/'' @ Path n)"

definition Named_String :: "Named \<Rightarrow> string" where
  "Named_String n =
     Named_Name n
     @ (case Tag n of None \<Rightarrow> [] | Some t \<Rightarrow> '':'' @ t)
     @ (case Digest n of None \<Rightarrow> [] | Some d \<Rightarrow> ''@'' @ d)"

text \<open>\<open>types.ImageReference\<close>, as far as the package looks into it.\<close>

record ImageReference =
  Transport_Name :: string
  DockerReference :: "Named option"
  StringWithinTransport :: string

text \<open>\<open>sysregistriesv2.Registry\<close>.\<close>

record Registry =
  Blocked :: bool

text \<open>
  The external collaborators: the local store (whose state has type \<open>'s\<close>), the
  transport table, the docker-reference parser, the registry configuration, the
  signature policy and the image copy. \<open>DefaultRegistryPathPrefix\<close> (package
  \<open>util\<close>) and \<open>FormatTransport\<close> (package \<open>exporter\<close>) belong to the repository
  but are not among the sources at hand, so they are parameters as well. A store lookup
  that returns an error is \<open>None\<close>: the callers only test the error against \<open>nil\<close>.
\<close>

record 's externals =
  store_Image :: "'s \<Rightarrow> string \<Rightarrow> Image option"
  transports_Get :: "string \<Rightarrow> string option"
  reference_ParseNormalizedNamed :: "string \<Rightarrow> error + Named"
  reference_Parse :: "string \<Rightarrow> error option"
  DefaultRegistryPathPrefix :: "string \<Rightarrow> string option"
  UnqualifiedSearchRegistries :: "error + string list"
  FindRegistry :: "string \<Rightarrow> error + Registry option"
  FormatTransport :: "string \<Rightarrow> string \<Rightarrow> string"
  alltransports_ParseImageName :: "string \<Rightarrow> error + ImageReference"
  ParseStoreReference :: "'s \<Rightarrow> string \<Rightarrow> error + ImageReference"
  GetStoreImage :: "'s \<Rightarrow> ImageReference \<Rightarrow> error + Image"
  signature_DefaultPolicy :: "error option"
  signature_NewPolicyContext :: "error option"
  copy_Image :: "'s \<Rightarrow> ImageReference \<Rightarrow> ImageReference \<Rightarrow> error option \<times> 's"

text \<open>
  Every call of a collaborator is recorded, in program order, so that "is never
  attempted" and "no pull" are statements about the recorded calls. Log lines of the
  image package are left out.
\<close>

datatype event =
    Call_store_Image string
  | Call_transports_Get string
  | Call_ParseNormalizedNamed string
  | Call_UnqualifiedSearchRegistries
  | Call_FindRegistry string
  | Call_reference_Parse string
  | Call_ParseImageName string
  | Call_ParseStoreReference string
  | Call_GetStoreImage ImageReference
  | Call_DefaultPolicy
  | Call_NewPolicyContext
  | Call_copy_Image ImageReference ImageReference
  | Call_PolicyContext_Destroy

section \<open>ResolveName and its stages\<close>

definition tryResolveNameInStore :: "'s externals \<Rightarrow> 's \<Rightarrow> string \<Rightarrow> string \<times> event list" where
  "tryResolveNameInStore ext st name =
     (case store_Image ext st (name @ '':'' @ DefaultTag) of
        Some img \<Rightarrow> (ID img, [Call_store_Image (name @ '':'' @ DefaultTag)])
      | None \<Rightarrow>
          (case store_Image ext st name of
             None \<Rightarrow> ([], [Call_store_Image (name @ '':'' @ DefaultTag), Call_store_Image name])
           | Some img \<Rightarrow>
               (ID img, [Call_store_Image (name @ '':'' @ DefaultTag), Call_store_Image name])))"

definition tryResolveNameWithTransport ::
  "'s externals \<Rightarrow> string \<Rightarrow> (string \<times> string) \<times> event list" where
  "tryResolveNameWithTransport ext name =
     (case strings_SplitN2 CHR '':'' name of
        [s0, s1] \<Rightarrow>
          (case transports_Get ext s0 of
             None \<Rightarrow> (([], []), [Call_transports_Get s0])
           | Some tn \<Rightarrow>
               (if tn = DockerTransport then
                  ((strings_TrimPrefix s1 ''//'', tn), [Call_transports_Get s0])
                else if tn = DockerArchiveTransport \<or> tn = OCIArchiveTransport then
                  ((strings_TrimSpace s1, tn), [Call_transports_Get s0])
                else (([], []), [Call_transports_Get s0])))
      | _ \<Rightarrow> (([], []), []))"

definition tryResolveNameWithDockerReference ::
  "'s externals \<Rightarrow> string \<Rightarrow> (error + string \<times> string) \<times> event list" where
  "tryResolveNameWithDockerReference ext name =
     (case reference_ParseNormalizedNamed ext name of
        Inl err \<Rightarrow>
          (Inl (errors_Wrapf err ''error parsing image name %q'' [ArgString name]),
           [Call_ParseNormalizedNamed name])
      | Inr named \<Rightarrow>
          (if Named_String named = name then
             (Inr (name, DockerTransport), [Call_ParseNormalizedNamed name])
           else
             (case DefaultRegistryPathPrefix ext (Domain named) of
                None \<Rightarrow> (Inr ([], []), [Call_ParseNormalizedNamed name])
              | Some pathPrefix \<Rightarrow>
                  (let repoPath = Path named;
                       tag = (case Tag named of None \<Rightarrow> [] | Some t \<Rightarrow> '':'' @ t);
                       digest = (case Digest named of None \<Rightarrow> [] | Some d \<Rightarrow> ''@'' @ d);
                       defaultPrefix = pathPrefix @ ''/''
                   in if strings_HasPrefix repoPath defaultPrefix
                         \<and> path_Join [Domain named, drop (length defaultPrefix) repoPath]
                             @ tag @ digest = name
                      then (Inr (name, DockerTransport), [Call_ParseNormalizedNamed name])
                      else (Inr ([], []), [Call_ParseNormalizedNamed name])))))"

text \<open>The first loop of \<open>tryResolveNameInRegistries\<close>: the registries that are kept.\<close>

fun keepRegistries :: "'s externals \<Rightarrow> string list \<Rightarrow> string list" where
  "keepRegistries ext [] = []"
| "keepRegistries ext (registry # rest) =
     (case FindRegistry ext registry of
        Inl err \<Rightarrow> keepRegistries ext rest
      | Inr None \<Rightarrow> registry # keepRegistries ext rest
      | Inr (Some reg) \<Rightarrow>
          (if \<not> Blocked reg then registry # keepRegistries ext rest
           else keepRegistries ext rest))"

text \<open>The second loop: one candidate for each registry that is not the empty string.\<close>

fun buildCandidates :: "'s externals \<Rightarrow> string \<Rightarrow> string list \<Rightarrow> string list" where
  "buildCandidates ext name [] = []"
| "buildCandidates ext name (registry # rest) =
     (if registry = [] then buildCandidates ext name rest
      else
        (let middle =
               (case DefaultRegistryPathPrefix ext registry of
                  Some prefix' \<Rightarrow> if \<not> strings_ContainsRune name CHR ''/'' then prefix' else []
                | None \<Rightarrow> [])
         in path_Join [registry, middle, name] # buildCandidates ext name rest))"

definition tryResolveNameInRegistries ::
  "'s externals \<Rightarrow> string \<Rightarrow> (string list \<times> string) \<times> event list" where
  "tryResolveNameInRegistries ext name =
     (let searchRegistries =
            (case UnqualifiedSearchRegistries ext of Inl err \<Rightarrow> [] | Inr rs \<Rightarrow> rs);
          registries = keepRegistries ext searchRegistries;
          candidates = buildCandidates ext name (''localhost'' # registries)
      in ((candidates, DockerTransport),
          Call_UnqualifiedSearchRegistries # map Call_FindRegistry searchRegistries))"

text \<open>
  \<open>ResolveName\<close> returns the candidates and the transport, or an error; the second
  component lists the collaborator calls it made.
\<close>

definition ResolveName ::
  "'s externals \<Rightarrow> 's \<Rightarrow> string \<Rightarrow> (error + string list \<times> string) \<times> event list" where
  "ResolveName ext st name =
     (if name = [] then (Inr ([], []), [])
      else
        (case tryResolveNameInStore ext st name of
           (imageID, t2) \<Rightarrow>
             if imageID \<noteq> [] then (Inr ([imageID], []), t2)
             else
               (case tryResolveNameWithTransport ext name of
                  ((dest, transport), t3) \<Rightarrow>
                    if dest \<noteq> [] \<and> transport \<noteq> [] then (Inr ([dest], transport), t2 @ t3)
                    else
                      (case tryResolveNameWithDockerReference ext name of
                         (Inl err, t4) \<Rightarrow> (Inl err, t2 @ t3 @ t4)
                       | (Inr (dest4, transport4), t4) \<Rightarrow>
                           if dest4 \<noteq> [] \<and> transport4 \<noteq> []
                           then (Inr ([dest4], transport4), t2 @ t3 @ t4)
                           else
                             (case tryResolveNameInRegistries ext name of
                                (res, t5) \<Rightarrow> (Inr res, t2 @ t3 @ t4 @ t5))))))"

section \<open>PullAndGetImageInfo\<close>

text \<open>\<open>strconv.Itoa\<close>: the decimal digits of an integer, with a minus sign when negative.\<close>

function nat_decimal :: "nat \<Rightarrow> string" where
  "nat_decimal n =
     (if n < 10 then [char_of (48 + n)]
      else nat_decimal (n div 10) @ [char_of (48 + n mod 10)])"
  by pat_completeness auto
termination
  by (relation "measure id") auto

definition strconv_Itoa :: "int \<Rightarrow> string" where
  "strconv_Itoa i = (if i < 0 then ''-'' @ nat_decimal (nat (- i)) else nat_decimal (nat i))"

record PrepareImageOptions =
  FromImage :: string
  ToImage :: string
  ManifestIndex :: int

record pullOption =
  srcRef :: ImageReference
  dstRef :: ImageReference
  dstName :: string

text \<open>
  \<open>pullImage\<close>: the policy context is destroyed on every return after it was created
  (the deferred call), the copy changes the store.
\<close>

definition pullImage ::
  "'s externals \<Rightarrow> 's \<Rightarrow> pullOption \<Rightarrow> (error + ImageReference) \<times> 's \<times> event list" where
  "pullImage ext st opt =
     (case signature_DefaultPolicy ext of
        Some err \<Rightarrow>
          (Inl (errors_Wrapf err ''error obtaining default signature policy'' []), st,
           [Call_DefaultPolicy])
      | None \<Rightarrow>
          (case signature_NewPolicyContext ext of
             Some err \<Rightarrow>
               (Inl (errors_Wrapf err ''error creating new signature policy context'' []), st,
                [Call_DefaultPolicy, Call_NewPolicyContext])
           | None \<Rightarrow>
               (case copy_Image ext st (dstRef opt) (srcRef opt) of
                  (Some err, st') \<Rightarrow>
                    (Inl err, st',
                     [Call_DefaultPolicy, Call_NewPolicyContext,
                      Call_copy_Image (dstRef opt) (srcRef opt), Call_PolicyContext_Destroy])
                | (None, st') \<Rightarrow>
                    (Inr (dstRef opt), st',
                     [Call_DefaultPolicy, Call_NewPolicyContext,
                      Call_copy_Image (dstRef opt) (srcRef opt), Call_PolicyContext_Destroy]))))"

definition getLocalImageNameFromRef :: "ImageReference option \<Rightarrow> error + string" where
  "getLocalImageNameFromRef sref =
     (case sref of
        None \<Rightarrow> Inl (errors_Errorf ''reference to image is empty'' [])
      | Some r \<Rightarrow>
          (if Transport_Name r \<noteq> DockerTransport then
             Inl (errors_Errorf ''the %s transport is not supported yet''
                    [ArgString (Transport_Name r)])
           else
             (case DockerReference r of
                None \<Rightarrow>
                  Inl (errors_New
                         ''get the docker reference associated with source reference failed'')
              | Some ref \<Rightarrow>
                  Inr (Named_Name ref
                       @ (case Tag ref of None \<Rightarrow> [] | Some t \<Rightarrow> '':'' @ t)
                       @ (case Digest ref of None \<Rightarrow> [] | Some d \<Rightarrow> ''@'' @ d)))))"

text \<open>
  One iteration of the candidate loop ends in one of three ways: it returns the image,
  it continues without touching \<open>errPull\<close>, or it continues after storing its error in
  \<open>errPull\<close>.
\<close>

datatype attempt = Found ImageReference Image | Skipped | PullFailed error

text \<open>The loop body after the \<open>switch\<close>: store lookup first, pull only on a miss.\<close>

definition lookupOrPull ::
  "'s externals \<Rightarrow> 's \<Rightarrow> ImageReference \<Rightarrow> string \<Rightarrow> attempt \<times> 's \<times> event list" where
  "lookupOrPull ext st sref destImage =
     (case ParseStoreReference ext st destImage of
        Inl err \<Rightarrow> (Skipped, st, [Call_ParseStoreReference destImage])
      | Inr destRef \<Rightarrow>
          (case GetStoreImage ext st destRef of
             Inr img \<Rightarrow>
               (Found destRef img, st,
                [Call_ParseStoreReference destImage, Call_GetStoreImage destRef])
           | Inl err0 \<Rightarrow>
               (case pullImage ext st \<lparr>srcRef = sref, dstRef = destRef, dstName = destImage\<rparr> of
                  (Inl err, st', tp) \<Rightarrow>
                    (PullFailed err, st',
                     [Call_ParseStoreReference destImage, Call_GetStoreImage destRef] @ tp)
                | (Inr pulledRef, st', tp) \<Rightarrow>
                    (case GetStoreImage ext st' pulledRef of
                       Inl err \<Rightarrow>
                         (PullFailed err, st',
                          [Call_ParseStoreReference destImage, Call_GetStoreImage destRef] @ tp
                          @ [Call_GetStoreImage pulledRef])
                     | Inr pulledImg \<Rightarrow>
                         (Found pulledRef pulledImg, st',
                          [Call_ParseStoreReference destImage, Call_GetStoreImage destRef] @ tp
                          @ [Call_GetStoreImage pulledRef])))))"

text \<open>The name handed to \<open>alltransports.ParseImageName\<close> for a candidate.\<close>

definition sourceName :: "'s externals \<Rightarrow> PrepareImageOptions \<Rightarrow> string \<Rightarrow> string \<Rightarrow> string" where
  "sourceName ext opt transport strImage =
     (if transport = DockerArchiveTransport
      then FormatTransport ext transport strImage @ '':@'' @ strconv_Itoa (ManifestIndex opt)
      else FormatTransport ext transport strImage)"

definition tryCandidate ::
  "'s externals \<Rightarrow> PrepareImageOptions \<Rightarrow> string \<Rightarrow> 's \<Rightarrow> string
   \<Rightarrow> attempt \<times> 's \<times> event list" where
  "tryCandidate ext opt transport st strImage =
     (let imageName = FormatTransport ext transport strImage
      in if transport = DockerArchiveTransport then
           (case alltransports_ParseImageName ext
                   (imageName @ '':@'' @ strconv_Itoa (ManifestIndex opt)) of
              Inl err \<Rightarrow>
                (Skipped, st,
                 [Call_ParseImageName (imageName @ '':@'' @ strconv_Itoa (ManifestIndex opt))])
            | Inr sref \<Rightarrow>
                (case lookupOrPull ext st sref (ToImage opt) of
                   (a, st', t) \<Rightarrow>
                     (a, st',
                      Call_ParseImageName (imageName @ '':@'' @ strconv_Itoa (ManifestIndex opt))
                      # t)))
         else if transport = OCIArchiveTransport then
           (case alltransports_ParseImageName ext imageName of
              Inl err \<Rightarrow> (Skipped, st, [Call_ParseImageName imageName])
            | Inr sref \<Rightarrow>
                (case lookupOrPull ext st sref (ToImage opt) of
                   (a, st', t) \<Rightarrow> (a, st', Call_ParseImageName imageName # t)))
         else
           (case alltransports_ParseImageName ext imageName of
              Inl err \<Rightarrow> (Skipped, st, [Call_ParseImageName imageName])
            | Inr sref \<Rightarrow>
                (case getLocalImageNameFromRef (Some sref) of
                   Inl err \<Rightarrow> (Skipped, st, [Call_ParseImageName imageName])
                 | Inr destImage \<Rightarrow>
                     (case lookupOrPull ext st sref destImage of
                        (a, st', t) \<Rightarrow> (a, st', Call_ParseImageName imageName # t)))))"

text \<open>
  The \<open>for\<close> loop over the candidates, with \<open>errPull\<close> as the accumulator. The result
  is the image returned from inside the loop, if any, and the final \<open>errPull\<close>.
\<close>

fun pullLoop ::
  "'s externals \<Rightarrow> PrepareImageOptions \<Rightarrow> string \<Rightarrow> 's \<Rightarrow> error option \<Rightarrow> string list
   \<Rightarrow> ((ImageReference \<times> Image) option \<times> error option) \<times> 's \<times> event list" where
  "pullLoop ext opt transport st errPull [] = ((None, errPull), st, [])"
| "pullLoop ext opt transport st errPull (strImage # rest) =
     (case tryCandidate ext opt transport st strImage of
        (Found ref img, st', t) \<Rightarrow> ((Some (ref, img), errPull), st', t)
      | (Skipped, st', t) \<Rightarrow>
          (case pullLoop ext opt transport st' errPull rest of
             (r, st'', t') \<Rightarrow> (r, st'', t @ t'))
      | (PullFailed err, st', t) \<Rightarrow>
          (case pullLoop ext opt transport st' (Some err) rest of
             (r, st'', t') \<Rightarrow> (r, st'', t @ t')))"

definition FindImage ::
  "'s externals \<Rightarrow> 's \<Rightarrow> string \<Rightarrow> (error + ImageReference \<times> Image) \<times> event list" where
  "FindImage ext st image' =
     (case reference_Parse ext image' of
        Some err \<Rightarrow>
          (Inl (errors_Wrapf err ''parse image %q failed'' [ArgString image']),
           [Call_reference_Parse image'])
      | None \<Rightarrow>
          (case tryResolveNameInStore ext st image' of
             (localName, t) \<Rightarrow>
               if localName = [] then
                 (Inl (errors_Errorf ''image %q not found in local store'' [ArgString image']),
                  Call_reference_Parse image' # t)
               else
                 (case ParseStoreReference ext st localName of
                    Inl err \<Rightarrow>
                      (Inl (errors_Wrapf err ''error parsing reference to image %q''
                              [ArgString localName]),
                       Call_reference_Parse image' # t @ [Call_ParseStoreReference localName])
                  | Inr ref \<Rightarrow>
                      (case GetStoreImage ext st ref of
                         Inl err \<Rightarrow>
                           (Inl (errors_Wrapf err ''failed to parse image %q in local store''
                                   [ArgString localName]),
                            Call_reference_Parse image' # t
                            @ [Call_ParseStoreReference localName, Call_GetStoreImage ref])
                       | Inr img \<Rightarrow>
                           (Inr (ref, img),
                            Call_reference_Parse image' # t
                            @ [Call_ParseStoreReference localName, Call_GetStoreImage ref])))))"

text \<open>
  \<open>PullAndGetImageInfo\<close> after its call of \<open>ResolveName\<close>, as a function of the
  candidates and the transport that call returned.
\<close>

definition PullAndGetImageInfo_resolved ::
  "'s externals \<Rightarrow> PrepareImageOptions \<Rightarrow> 's \<Rightarrow> string list \<Rightarrow> string
   \<Rightarrow> (error + ImageReference \<times> Image) \<times> 's \<times> event list" where
  "PullAndGetImageInfo_resolved ext opt st candidates transport =
     (if transport = [] then
        (if length candidates \<noteq> 1 then
           (Inl (errors_New ''transport is empty and multi or no image be found''), st, [])
         else
           (case FindImage ext st (candidates ! 0) of
              (Inl fErr, t) \<Rightarrow> (Inl fErr, st, t)
            | (Inr found, t) \<Rightarrow> (Inr found, st, t)))
      else
        (case pullLoop ext opt transport st None candidates of
           ((Some found, errPull), st', t) \<Rightarrow> (Inr found, st', t)
         | ((None, errPull), st', t) \<Rightarrow>
             (Inl (errors_Errorf ''failed to get the image in %#v: %v''
                     [ArgStrings candidates, ArgError errPull]),
              st', t)))"

definition PullAndGetImageInfo ::
  "'s externals \<Rightarrow> PrepareImageOptions \<Rightarrow> 's
   \<Rightarrow> (error + ImageReference \<times> Image) \<times> 's \<times> event list" where
  "PullAndGetImageInfo ext opt st =
     (case ResolveName ext st (FromImage opt) of
        (Inl err, t) \<Rightarrow>
          (Inl (errors_Wrapf err ''error parsing reference to image %q''
                  [ArgString (FromImage opt)]),
           st, t)
      | (Inr (candidates, transport), t) \<Rightarrow>
          (case PullAndGetImageInfo_resolved ext opt st candidates transport of
             (r, st', t') \<Rightarrow> (r, st', t @ t')))"

section \<open>The build daemon: producer, bridge reader and supervisor\<close>

text \<open>\<open>exporter.PipeWrapper\<close> and its \<open>Close\<close> method.\<close>

record PipeWrapper =
  PipeFile :: string
  Done :: bool
  Err :: "error option"

definition PipeWrapper_Close :: "PipeWrapper \<Rightarrow> PipeWrapper" where
  "PipeWrapper_Close p = p\<lparr>Done := True\<rparr>"

text \<open>\<open>pb.BuildResponse\<close>; a \<open>nil\<close> payload is the empty byte string.\<close>

record BuildResponse =
  Data :: string
  ImageID :: string

text \<open>
  What the daemon does besides sending and piping, in program order: status
  synchronisation, log lines, closing, and the deferred teardown of \<open>Build\<close>.
\<close>

datatype daemon_event =
    Ev_syncBuildStatus
  | Ev_close_startBuild
  | Ev_Warnf string "fmtarg list"
  | Ev_Debugf string
  | Ev_file_Close
  | Ev_close_errChan
  | Ev_Send BuildResponse
  | Ev_CleanResources
  | Ev_deleteBuilder
  | Ev_deleteStatus
  | Ev_wg_Done

text \<open>
  The environment of one build request. The builder is given by whether
  \<open>builder.Build()\<close> gets as far as opening the archive pipe for writing, by the
  chunks it then writes into the pipe, and by what it returns; \<open>Error_text\<close> is the
  \<open>Error()\<close> method of error values; \<open>BufferSize\<close> (package \<open>constant\<close>) is not
  among the sources at hand. \<open>WriteFile_result\<close> is the error \<open>ioutil.WriteFile\<close>
  returns when it does not get to write (\<open>None\<close>: it writes as soon as it has
  opened the pipe). The remaining fields are the results of the file and stream
  operations.
\<close>

record build_env =
  Build_opens :: bool
  Build_writes :: "string list"
  Build_result :: "string \<times> error option"
  Error_text :: "error \<Rightarrow> string"
  WriteFile_result :: "error option"
  OpenFile_result :: "error option"
  Close_result :: "error option"
  stream_Send :: "BuildResponse list \<Rightarrow> BuildResponse \<Rightarrow> error option"
  BufferSize :: nat

text \<open>
  The two goroutines of the error group run interleaved. Each has a program counter:
  the producer is before the build, inside \<open>builder.Build()\<close> before it opens the
  pipe, inside \<open>builder.Build()\<close> with the chunks still to write, at the return of
  \<open>builder.Build()\<close>, before \<open>pipeWrapper.Close()\<close>, before \<open>ioutil.WriteFile\<close>, or
  has returned; the bridge reader is before \<open>PipeArchiveStream\<close>, inside the
  \<open>os.OpenFile\<close> of \<open>PipeArchiveStream\<close>, before \<open>reader.Read\<close>, at the test of
  the read result (holding the bytes read and \<open>rerr\<close>), before \<open>stream.Send\<close>, or
  has returned. A step is atomic, and a read of the done flag sees the last write to
  it. The status synchronisation at the start of the producer is taken not to block.
\<close>

datatype producer_pc =
    P_Start
  | P_Open
  | P_Build "string list"
  | P_Finish
  | P_Close error
  | P_WriteFile error
  | P_Returned "error option"

datatype consumer_pc =
    C_Start
  | C_Opening
  | C_Read
  | C_Check string "error option"
  | C_Send string
  | C_Returned "error option"

text \<open>
  The archive pipe is a named pipe made by \<open>Mkfifo\<close> (\<open>NewPipeWrapper\<close>), with the
  rules of the operating system for such a file. \<open>fifo\<close> is the byte queue in the
  pipe. An open for reading makes a reader present (\<open>reader_present\<close>) and then waits
  until the pipe has been opened for writing (\<open>writer_seen\<close>: some open for writing
  has succeeded since the reader arrived). An open for writing waits until a reader
  is present. \<open>writer_open\<close> says that the build holds the pipe open for writing. A
  read of the empty pipe waits while a write side is open and reports end of file
  otherwise. A write while no reader is present fails and puts nothing into the
  pipe. The capacity of the pipe is not modelled: a full pipe only delays a writer
  until the reader has read, which removes interleavings and adds none.

  \<open>written\<close>, \<open>err_written\<close> and \<open>discarded\<close> are history variables that no step
  reads: the bytes the build has put into the pipe, the bytes \<open>ioutil.WriteFile\<close> has
  put into the pipe, and the bytes the bridge reader held in its buffer when it
  returned.
\<close>

record build_state =
  pipeWrapper :: "PipeWrapper option"
  fifo :: string
  reader_present :: bool
  writer_open :: bool
  writer_seen :: bool
  imageID :: string
  producer :: producer_pc
  consumer :: consumer_pc
  sent :: "BuildResponse list"
  events :: "daemon_event list"
  written :: string
  err_written :: string
  discarded :: string

definition initial :: "PipeWrapper option \<Rightarrow> build_state" where
  "initial pw =
     \<lparr>pipeWrapper = pw, fifo = [], reader_present = False, writer_open = False,
      writer_seen = False, imageID = [], producer = P_Start, consumer = C_Start,
      sent = [], events = [], written = [], err_written = [], discarded = []\<rparr>"

text \<open>
  One atomic step of the first goroutine. A build that exports an archive opens the
  pipe for writing, which waits for the reader, writes its chunks one at a time and
  closes its end of the pipe before \<open>builder.Build()\<close> returns, whether it fails or
  not; a chunk written after the reader has gone is lost. \<open>ioutil.WriteFile\<close> opens
  the pipe for writing, writes the text and closes the pipe again: it waits in the
  open until a reader is present (the step leaves the state as it is), and when it
  fails nothing is written.
\<close>

definition producer_step :: "build_env \<Rightarrow> build_state \<Rightarrow> build_state" where
  "producer_step env s =
     (case producer s of
        P_Start \<Rightarrow>
          s\<lparr>producer := (if Build_opens env \<and> pipeWrapper s \<noteq> None then P_Open else P_Finish),
            events := events s @ [Ev_syncBuildStatus, Ev_close_startBuild]\<rparr>
      | P_Open \<Rightarrow>
          if reader_present s
          then s\<lparr>writer_open := True, writer_seen := True,
                 producer := P_Build (Build_writes env)\<rparr>
          else s
      | P_Build (w # ws) \<Rightarrow>
          if reader_present s
          then s\<lparr>fifo := fifo s @ w, written := written s @ w, producer := P_Build ws\<rparr>
          else s\<lparr>producer := P_Build ws\<rparr>
      | P_Build [] \<Rightarrow> s\<lparr>writer_open := False, producer := P_Finish\<rparr>
      | P_Finish \<Rightarrow>
          (case Build_result env of
             (iid, None) \<Rightarrow> s\<lparr>imageID := iid, producer := P_Returned None\<rparr>
           | (iid, Some berr) \<Rightarrow>
               if pipeWrapper s \<noteq> None then s\<lparr>imageID := iid, producer := P_Close berr\<rparr>
               else s\<lparr>imageID := iid, producer := P_Returned (Some berr)\<rparr>)
      | P_Close berr \<Rightarrow>
          s\<lparr>pipeWrapper := map_option PipeWrapper_Close (pipeWrapper s),
            producer := P_WriteFile berr\<rparr>
      | P_WriteFile berr \<Rightarrow>
          (case WriteFile_result env of
             Some perr \<Rightarrow>
               s\<lparr>events := events s
                    @ [Ev_Warnf ''Write error [%v] in to pipe file failed: %v''
                         [ArgError (Some berr), ArgError (Some perr)]],
                 producer := P_Returned (Some berr)\<rparr>
           | None \<Rightarrow>
               if reader_present s
               then s\<lparr>fifo := fifo s @ Error_text env berr,
                      err_written := err_written s @ Error_text env berr,
                      writer_seen := True,
                      producer := P_Returned (Some berr)\<rparr>
               else s)
      | P_Returned r \<Rightarrow> s)"

text \<open>
  \<open>exporter.PipeArchiveStream\<close>: the error it returns, if any. Without an error its
  \<open>os.OpenFile\<close> has still to wait for the pipe to be opened for writing.
\<close>

definition PipeArchiveStream :: "build_env \<Rightarrow> PipeWrapper option \<Rightarrow> error option" where
  "PipeArchiveStream env pw =
     (case pw of
        None \<Rightarrow> Some (errors_New ''no pipe wrapper found'')
      | Some p \<Rightarrow>
          if PipeFile p = [] then Some (errors_New ''no pipe wrapper found'')
          else OpenFile_result env)"

text \<open>The deferred \<open>f.Close()\<close> of the second goroutine.\<close>

definition deferred_Close :: "build_env \<Rightarrow> PipeWrapper option \<Rightarrow> daemon_event list" where
  "deferred_Close env pw =
     (case Close_result env of
        None \<Rightarrow> [Ev_file_Close]
      | Some cErr \<Rightarrow>
          [Ev_file_Close,
           Ev_Warnf ''Closing archive stream pipe %q failed: %v''
             [ArgString (case pw of None \<Rightarrow> [] | Some p \<Rightarrow> PipeFile p), ArgError (Some cErr)]])"

text \<open>
  One atomic step of the second goroutine. The open waits until the pipe has been
  opened for writing, and a read of the empty pipe whose write side is open waits: in
  both cases the step leaves the state as it is. When the goroutine returns after
  the open, the deferred \<open>f.Close()\<close> runs and no reader is present any more.
\<close>

definition consumer_step :: "build_env \<Rightarrow> build_state \<Rightarrow> build_state" where
  "consumer_step env s =
     (case consumer s of
        C_Start \<Rightarrow>
          if pipeWrapper s = None then s\<lparr>consumer := C_Returned None\<rparr>
          else
            (case PipeArchiveStream env (pipeWrapper s) of
               Some perr \<Rightarrow> s\<lparr>consumer := C_Returned (Some perr)\<rparr>
             | None \<Rightarrow> s\<lparr>reader_present := True, consumer := C_Opening\<rparr>)
      | C_Opening \<Rightarrow> if writer_seen s then s\<lparr>consumer := C_Read\<rparr> else s
      | C_Read \<Rightarrow>
          if fifo s \<noteq> [] then
            s\<lparr>fifo := drop (BufferSize env) (fifo s),
              consumer := C_Check (take (BufferSize env) (fifo s)) None\<rparr>
          else if \<not> writer_open s then s\<lparr>consumer := C_Check [] (Some io_EOF)\<rparr>
          else s
      | C_Check buf rerr \<Rightarrow>
          if rerr = Some io_EOF \<or> (case pipeWrapper s of None \<Rightarrow> False | Some p \<Rightarrow> Done p) then
            s\<lparr>consumer := C_Returned None, reader_present := False, discarded := buf,
              events := events s @ [Ev_Debugf ''Piping build archive stream done'']
                        @ deferred_Close env (pipeWrapper s)\<rparr>
          else
            (case rerr of
               Some e \<Rightarrow>
                 s\<lparr>consumer := C_Returned (Some e), reader_present := False, discarded := buf,
                   events := events s @ deferred_Close env (pipeWrapper s)\<rparr>
             | None \<Rightarrow> s\<lparr>consumer := C_Send buf\<rparr>)
      | C_Send buf \<Rightarrow>
          (case stream_Send env (sent s) \<lparr>Data = buf, ImageID = []\<rparr> of
             Some serr \<Rightarrow>
               s\<lparr>consumer := C_Returned (Some serr), reader_present := False, discarded := buf,
                 events := events s @ deferred_Close env (pipeWrapper s)\<rparr>
           | None \<Rightarrow>
               s\<lparr>sent := sent s @ [\<lparr>Data = buf, ImageID = []\<rparr>], consumer := C_Read\<rparr>)
      | C_Returned r \<Rightarrow> s)"

datatype task = Producer | Consumer

definition step :: "build_env \<Rightarrow> task \<Rightarrow> build_state \<Rightarrow> build_state" where
  "step env t s = (case t of Producer \<Rightarrow> producer_step env s | Consumer \<Rightarrow> consumer_step env s)"

text \<open>A run is a schedule: which goroutine takes the next step.\<close>

fun exec :: "build_env \<Rightarrow> task list \<Rightarrow> build_state \<Rightarrow> build_state" where
  "exec env [] s = s"
| "exec env (t # ts) s = exec env ts (step env t s)"

text \<open>The bytes forwarded to the client stream so far.\<close>

definition forwarded :: "build_state \<Rightarrow> string" where
  "forwarded s = concat (map Data (sent s))"

definition consumer_returned :: "build_state \<Rightarrow> bool" where
  "consumer_returned s = (case consumer s of C_Returned r \<Rightarrow> True | _ \<Rightarrow> False)"

text \<open>
  The \<open>select\<close> of \<open>Build\<close> and what follows it: either the error group's result
  arrives on \<open>errChan\<close>, or the stream's context is done. \<open>ctxErr\<close> is \<open>ctx.Err()\<close>,
  \<open>cerr\<close> the result of \<open>builder.CleanResources()\<close> in the deferred teardown. The
  result is the error \<open>Build\<close> returns.
\<close>

datatype select_case = errChan_receive "error option" | stream_Context_Done

definition deferred_teardown :: "error option \<Rightarrow> daemon_event list" where
  "deferred_teardown cerr =
     (case cerr of
        None \<Rightarrow> [Ev_CleanResources, Ev_deleteBuilder, Ev_deleteStatus, Ev_wg_Done]
      | Some e \<Rightarrow>
          [Ev_CleanResources,
           Ev_Warnf ''defer builder clean build resources failed: %v'' [ArgError (Some e)],
           Ev_deleteBuilder, Ev_deleteStatus, Ev_wg_Done])"

definition Build_select ::
  "(BuildResponse \<Rightarrow> error option) \<Rightarrow> error option \<Rightarrow> string \<Rightarrow> error option \<Rightarrow> select_case
   \<Rightarrow> error option \<times> daemon_event list" where
  "Build_select send cerr iid ctxErr c =
     (case c of
        errChan_receive chErr \<Rightarrow>
          (case chErr of
             Some e \<Rightarrow> (Some e, Ev_close_errChan # deferred_teardown cerr)
           | None \<Rightarrow>
               (case send \<lparr>Data = [], ImageID = iid\<rparr> of
                  Some serr \<Rightarrow>
                    (Some serr,
                     [Ev_close_errChan, Ev_Send \<lparr>Data = [], ImageID = iid\<rparr>]
                     @ deferred_teardown cerr)
                | None \<Rightarrow>
                    (None,
                     [Ev_close_errChan, Ev_Send \<lparr>Data = [], ImageID = iid\<rparr>]
                     @ deferred_teardown cerr)))
      | stream_Context_Done \<Rightarrow>
          (None,
           (if ctxErr \<noteq> None \<and> ctxErr \<noteq> Some context_Canceled
            then [Ev_Warnf ''Stream closed with: %v'' [ArgError ctxErr]]
            else [])
           @ deferred_teardown cerr))"


section \<open>Notions used in the statements\<close>

text \<open>The configured search registries; none when the configuration cannot be read.\<close>

definition configuredRegistries :: "'s externals \<Rightarrow> string list" where
  "configuredRegistries ext =
     (case UnqualifiedSearchRegistries ext of Inl err \<Rightarrow> [] | Inr rs \<Rightarrow> rs)"

text \<open>
  A configured registry is accepted when its configuration can be looked up and does
  not mark it blocked (a registry without an entry is not blocked).
\<close>

definition registryAccepted :: "'s externals \<Rightarrow> string \<Rightarrow> bool" where
  "registryAccepted ext r =
     (case FindRegistry ext r of
        Inl err \<Rightarrow> False
      | Inr None \<Rightarrow> True
      | Inr (Some reg) \<Rightarrow> \<not> Blocked reg)"

text \<open>
  The candidate for one registry, in the words of the spec: \<open>registry/name\<close>, with the
  registry's default path prefix in between when it has one and the name has no slash.
\<close>

definition candidateFor :: "'s externals \<Rightarrow> string \<Rightarrow> string \<Rightarrow> string" where
  "candidateFor ext name registry =
     (case DefaultRegistryPathPrefix ext registry of
        None \<Rightarrow> path_Join [registry, name]
      | Some p \<Rightarrow>
          if CHR ''/'' \<in> set name then path_Join [registry, name]
          else path_Join [registry, p, name])"

text \<open>
  The outcomes of the loop iterations that are run, in order: the list ends with the
  first iteration that returns an image, or covers every candidate.
\<close>

fun attemptOutcomes ::
  "'s externals \<Rightarrow> PrepareImageOptions \<Rightarrow> string \<Rightarrow> 's \<Rightarrow> string list \<Rightarrow> attempt list" where
  "attemptOutcomes ext opt transport st [] = []"
| "attemptOutcomes ext opt transport st (c # cs) =
     (case tryCandidate ext opt transport st c of
        (Found ref img, st', t) \<Rightarrow> [Found ref img]
      | (Skipped, st', t) \<Rightarrow> Skipped # attemptOutcomes ext opt transport st' cs
      | (PullFailed err, st', t) \<Rightarrow> PullFailed err # attemptOutcomes ext opt transport st' cs)"

fun firstFound :: "attempt list \<Rightarrow> (ImageReference \<times> Image) option" where
  "firstFound [] = None"
| "firstFound (Found ref img # as) = Some (ref, img)"
| "firstFound (Skipped # as) = firstFound as"
| "firstFound (PullFailed err # as) = firstFound as"

fun pullErrors :: "attempt list \<Rightarrow> error list" where
  "pullErrors [] = []"
| "pullErrors (Found ref img # as) = pullErrors as"
| "pullErrors (Skipped # as) = pullErrors as"
| "pullErrors (PullFailed err # as) = err # pullErrors as"

definition is_ParseImageName :: "event \<Rightarrow> bool" where
  "is_ParseImageName ev = (case ev of Call_ParseImageName n \<Rightarrow> True | _ \<Rightarrow> False)"

text \<open>The calls that \<open>pullImage\<close> makes.\<close>

definition is_pull_event :: "event \<Rightarrow> bool" where
  "is_pull_event ev =
     (case ev of
        Call_DefaultPolicy \<Rightarrow> True
      | Call_NewPolicyContext \<Rightarrow> True
      | Call_copy_Image d s \<Rightarrow> True
      | Call_PolicyContext_Destroy \<Rightarrow> True
      | _ \<Rightarrow> False)"

text \<open>
  A candidate is already present in the local store when its source name parses, its
  destination name is a store reference, and the store has an image for that reference.
\<close>

definition locallyPresent ::
  "'s externals \<Rightarrow> PrepareImageOptions \<Rightarrow> string \<Rightarrow> 's \<Rightarrow> string
   \<Rightarrow> (ImageReference \<times> Image) option" where
  "locallyPresent ext opt transport st c =
     (case alltransports_ParseImageName ext (sourceName ext opt transport c) of
        Inl e \<Rightarrow> None
      | Inr sref \<Rightarrow>
          (case (if transport = DockerArchiveTransport \<or> transport = OCIArchiveTransport
                 then Inr (ToImage opt) else getLocalImageNameFromRef (Some sref)) of
             Inl e \<Rightarrow> None
           | Inr destImage \<Rightarrow>
               (case ParseStoreReference ext st destImage of
                  Inl e \<Rightarrow> None
                | Inr destRef \<Rightarrow>
                    (case GetStoreImage ext st destRef of
                       Inl e \<Rightarrow> None
                     | Inr img \<Rightarrow> Some (destRef, img)))))"

text \<open>
  The pull that the iteration for a candidate leads to, if any: the candidate's source
  name parses, the name of its local copy is known, the store reference for that name
  parses, and the store does not have the image. The value is the \<open>pullOption\<close>
  handed to \<open>pullImage\<close>.
\<close>

definition pullRequest ::
  "'s externals \<Rightarrow> PrepareImageOptions \<Rightarrow> string \<Rightarrow> 's \<Rightarrow> string \<Rightarrow> pullOption option" where
  "pullRequest ext opt transport st c =
     (case alltransports_ParseImageName ext (sourceName ext opt transport c) of
        Inl e \<Rightarrow> None
      | Inr sref \<Rightarrow>
          (case (if transport = DockerArchiveTransport \<or> transport = OCIArchiveTransport
                 then Inr (ToImage opt) else getLocalImageNameFromRef (Some sref)) of
             Inl e \<Rightarrow> None
           | Inr destImage \<Rightarrow>
               (case ParseStoreReference ext st destImage of
                  Inl e \<Rightarrow> None
                | Inr destRef \<Rightarrow>
                    (case GetStoreImage ext st destRef of
                       Inr img \<Rightarrow> None
                     | Inl e \<Rightarrow>
                         Some \<lparr>srcRef = sref, dstRef = destRef, dstName = destImage\<rparr>))))"

text \<open>
  The outcome of the iteration for a candidate, read off the calls it makes: the
  image found in the store; no attempt when a parse fails; a failed pull with its
  error (\<open>errPull = err\<close>), which is also the outcome when the pulled image cannot
  be read from the store afterwards; the pulled image. \<open>storeAfterAttempt\<close> is
  the store the iteration leaves behind.
\<close>

definition attemptOf ::
  "'s externals \<Rightarrow> PrepareImageOptions \<Rightarrow> string \<Rightarrow> 's \<Rightarrow> string \<Rightarrow> attempt" where
  "attemptOf ext opt transport st c =
     (case locallyPresent ext opt transport st c of
        Some (ref, img) \<Rightarrow> Found ref img
      | None \<Rightarrow>
          (case pullRequest ext opt transport st c of
             None \<Rightarrow> Skipped
           | Some po \<Rightarrow>
               (case fst (pullImage ext st po) of
                  Inl err \<Rightarrow> PullFailed err
                | Inr pulledRef \<Rightarrow>
                    (case GetStoreImage ext (fst (snd (pullImage ext st po))) pulledRef of
                       Inl err \<Rightarrow> PullFailed err
                     | Inr pulledImg \<Rightarrow> Found pulledRef pulledImg))))"

definition storeAfterAttempt ::
  "'s externals \<Rightarrow> PrepareImageOptions \<Rightarrow> string \<Rightarrow> 's \<Rightarrow> string \<Rightarrow> 's" where
  "storeAfterAttempt ext opt transport st c =
     (case pullRequest ext opt transport st c of
        None \<Rightarrow> st
      | Some po \<Rightarrow> fst (snd (pullImage ext st po)))"

text \<open>
  The image \<open>tryResolveNameInStore\<close> finds for a name, looked up with the default
  tag first and as it stands second, and the store queries it makes on the way.
\<close>

definition storeLookup :: "'s externals \<Rightarrow> 's \<Rightarrow> string \<Rightarrow> Image option" where
  "storeLookup ext st name =
     (case store_Image ext st (name @ '':'' @ DefaultTag) of
        Some img \<Rightarrow> Some img
      | None \<Rightarrow> store_Image ext st name)"

definition storeLookupCalls :: "'s externals \<Rightarrow> 's \<Rightarrow> string \<Rightarrow> event list" where
  "storeLookupCalls ext st name =
     (case store_Image ext st (name @ '':'' @ DefaultTag) of
        Some img \<Rightarrow> [Call_store_Image (name @ '':'' @ DefaultTag)]
      | None \<Rightarrow> [Call_store_Image (name @ '':'' @ DefaultTag), Call_store_Image name])"

text \<open>The value of \<open>pipeWrapper.Done\<close>, false without a pipe wrapper.\<close>

definition done_flag :: "build_state \<Rightarrow> bool" where
  "done_flag s = (case pipeWrapper s of None \<Rightarrow> False | Some p \<Rightarrow> Done p)"

text \<open>
  The bytes in the bridge reader's buffer: those of the last read while it tests
  the read result or sends, and those it held when it returned.
\<close>

definition in_hand :: "build_state \<Rightarrow> string" where
  "in_hand s =
     (case consumer s of
        C_Check buf rerr \<Rightarrow> buf
      | C_Send buf \<Rightarrow> buf
      | C_Returned r \<Rightarrow> discarded s
      | _ \<Rightarrow> [])"

text \<open>
  Three invariants of every run. The first ties the bridge reader's program counter
  to the state of the pipe's two ends. The second ties the producer's program counter
  to what has been written into the pipe. The third says that no byte is lost between
  the pipe and the stream while the reader runs: what has been forwarded, what the
  reader holds and what is still in the pipe are together what has been written, and
  what has been forwarded comes from the build's own bytes.
\<close>

definition reader_inv :: "build_state \<Rightarrow> bool" where
  "reader_inv s =
     ((case consumer s of
         C_Start \<Rightarrow>
           \<not> reader_present s \<and> \<not> writer_seen s \<and> sent s = [] \<and> fifo s = []
           \<and> written s = [] \<and> err_written s = [] \<and> discarded s = []
       | C_Opening \<Rightarrow> reader_present s \<and> sent s = [] \<and> discarded s = []
       | C_Read \<Rightarrow> reader_present s \<and> writer_seen s
       | C_Check buf rerr \<Rightarrow> reader_present s \<and> writer_seen s
       | C_Send buf \<Rightarrow> reader_present s \<and> writer_seen s
       | C_Returned r \<Rightarrow> \<not> reader_present s))"

definition producer_inv :: "build_env \<Rightarrow> build_state \<Rightarrow> bool" where
  "producer_inv env s =
     (prefix (written s) (concat (Build_writes env))
      \<and> (case producer s of
            P_Start \<Rightarrow>
              \<not> writer_open s \<and> \<not> writer_seen s \<and> written s = [] \<and> err_written s = []
          | P_Open \<Rightarrow>
              \<not> writer_open s \<and> \<not> writer_seen s \<and> written s = [] \<and> err_written s = []
              \<and> Build_opens env \<and> pipeWrapper s \<noteq> None
          | P_Build ws \<Rightarrow>
              writer_open s \<and> writer_seen s \<and> err_written s = []
              \<and> Build_opens env \<and> pipeWrapper s \<noteq> None
              \<and> (\<exists>ds. Build_writes env = ds @ ws
                       \<and> (written s = concat ds
                           \<or> (\<not> reader_present s \<and> prefix (written s) (concat ds))))
          | P_Finish \<Rightarrow>
              \<not> writer_open s \<and> err_written s = []
              \<and> (Build_opens env \<and> pipeWrapper s \<noteq> None \<longrightarrow> writer_seen s)
          | P_Close e \<Rightarrow>
              \<not> writer_open s \<and> err_written s = [] \<and> snd (Build_result env) = Some e
              \<and> pipeWrapper s \<noteq> None \<and> (Build_opens env \<longrightarrow> writer_seen s)
          | P_WriteFile e \<Rightarrow>
              \<not> writer_open s \<and> err_written s = [] \<and> snd (Build_result env) = Some e
              \<and> done_flag s \<and> (Build_opens env \<longrightarrow> writer_seen s)
          | P_Returned r \<Rightarrow>
              \<not> writer_open s \<and> r = snd (Build_result env)
              \<and> (Build_opens env \<and> pipeWrapper s \<noteq> None \<longrightarrow> writer_seen s)
              \<and> (case r of
                    None \<Rightarrow> err_written s = []
                  | Some e \<Rightarrow>
                      if pipeWrapper s = None then err_written s = []
                      else done_flag s
                           \<and> (case WriteFile_result env of
                                 None \<Rightarrow> err_written s = Error_text env e \<and> writer_seen s
                               | Some perr \<Rightarrow> err_written s = []))))"

definition content_inv :: "build_env \<Rightarrow> build_state \<Rightarrow> bool" where
  "content_inv env s =
     (forwarded s @ in_hand s @ fifo s = written s @ err_written s
      \<and> prefix (forwarded s) (written s)
      \<and> length (in_hand s) \<le> BufferSize env
      \<and> (case consumer s of
            C_Check buf rerr \<Rightarrow>
              (case rerr of
                 None \<Rightarrow> buf \<noteq> [] \<or> BufferSize env = 0
               | Some e \<Rightarrow> e = io_EOF \<and> buf = [] \<and> forwarded s = written s \<and> \<not> writer_open s)
          | C_Send buf \<Rightarrow> prefix (forwarded s @ buf) (written s)
          | C_Returned r \<Rightarrow>
              forwarded s = written s
              \<or> (r = None \<and> done_flag s \<and> (discarded s \<noteq> [] \<or> BufferSize env = 0))
              \<or> (r \<noteq> None
                  \<and> stream_Send env (sent s) \<lparr>Data = discarded s, ImageID = []\<rparr> = r)
          | _ \<Rightarrow> True))"

text \<open>
  How many steps of its own the bridge reader needs at most to return, once the
  done flag is set and the pipe has been opened for writing and closed again.
\<close>

fun steps_to_return :: "consumer_pc \<Rightarrow> nat" where
  "steps_to_return C_Start = 4"
| "steps_to_return C_Opening = 3"
| "steps_to_return C_Read = 2"
| "steps_to_return (C_Check buf rerr) = 1"
| "steps_to_return (C_Send buf) = 3"
| "steps_to_return (C_Returned r) = 0"

definition pipeline_inv :: "build_env \<Rightarrow> build_state \<Rightarrow> bool" where
  "pipeline_inv env s = (reader_inv s \<and> producer_inv env s \<and> content_inv env s)"


section \<open>Example environments\<close>

text \<open>
  A small concrete world for evaluating the definitions: a store given by a list of
  names with their images, a docker-reference parser that knows a few names, two
  configured registries of which one is blocked, and a remote side on which only
  \<open>quay.io\<close> serves the image.
\<close>

definition example_parse :: "string \<Rightarrow> error + Named" where
  "example_parse s =
     (if s = ''busybox'' then
        Inr \<lparr>Domain = ''docker.io'', Path = ''library/busybox'', Tag = None, Digest = None\<rparr>
      else if s = ''isula/app'' then
        Inr \<lparr>Domain = ''docker.io'', Path = ''isula/app'', Tag = None, Digest = None\<rparr>
      else if s = ''registry.example.com/library/x:1.0'' then
        Inr \<lparr>Domain = ''registry.example.com'', Path = ''library/x'', Tag = Some ''1.0'',
             Digest = None\<rparr>
      else Inl (errors_New ''invalid reference format''))"

definition docker_source :: "string \<Rightarrow> string \<Rightarrow> ImageReference" where
  "docker_source d p =
     \<lparr>Transport_Name = ''docker'',
      DockerReference = Some \<lparr>Domain = d, Path = p, Tag = Some ''latest'', Digest = None\<rparr>,
      StringWithinTransport = ''//'' @ d @ ''/'' @ p @ '':latest''\<rparr>"

definition store_reference :: "string \<Rightarrow> ImageReference" where
  "store_reference n =
     \<lparr>Transport_Name = ''containers-storage'', DockerReference = None,
      StringWithinTransport = n\<rparr>"

definition example_ext :: "(string \<times> Image) list externals" where
  "example_ext =
     \<lparr>store_Image = (\<lambda>st k. map_of st k),
      transports_Get =
        (\<lambda>n. if n \<in> set [''dir'', ''docker'', ''docker-archive'', ''oci'', ''oci-archive'']
              then Some n else None),
      reference_ParseNormalizedNamed = example_parse,
      reference_Parse =
        (\<lambda>s. if s = [] then Some (errors_New ''invalid reference format'') else None),
      DefaultRegistryPathPrefix = map_of [(''docker.io'', ''library'')],
      UnqualifiedSearchRegistries = Inr [''docker.io'', ''blocked.example.com'', ''quay.io''],
      FindRegistry =
        (\<lambda>r. if r = ''blocked.example.com'' then Inr (Some \<lparr>Blocked = True\<rparr>) else Inr None),
      FormatTransport =
        (\<lambda>t p. if t = ''docker'' then t @ ''://'' @ p else t @ '':'' @ p),
      alltransports_ParseImageName =
        (\<lambda>s. if s = ''docker://localhost/busybox'' then Inr (docker_source ''localhost'' ''busybox'')
              else if s = ''docker://docker.io/library/busybox''
              then Inr (docker_source ''docker.io'' ''library/busybox'')
              else if s = ''docker://quay.io/busybox'' then Inr (docker_source ''quay.io'' ''busybox'')
              else Inl (errors_New ''invalid reference format'')),
      ParseStoreReference = (\<lambda>st n. Inr (store_reference n)),
      GetStoreImage =
        (\<lambda>st r. case map_of st (StringWithinTransport r) of
                   None \<Rightarrow> Inl (errors_New ''image not known'')
                 | Some img \<Rightarrow> Inr img),
      signature_DefaultPolicy = None,
      signature_NewPolicyContext = None,
      copy_Image =
        (\<lambda>st d s.
           if StringWithinTransport s = ''//localhost/busybox:latest''
           then (Some (errors_New ''connection refused''), st)
           else if StringWithinTransport s = ''//docker.io/library/busybox:latest''
           then (Some (errors_New ''manifest unknown''), st)
           else (None,
                 st @ [(StringWithinTransport d,
                        \<lparr>ID = ''beae173ccac6'', Names = [StringWithinTransport d]\<rparr>)]))\<rparr>"

definition example_store :: "(string \<times> Image) list" where
  "example_store =
     [(''busybox:latest'', \<lparr>ID = ''beae173ccac6'', Names = [''busybox:latest'']\<rparr>),
      (''beae173ccac6'', \<lparr>ID = ''beae173ccac6'', Names = [''busybox:latest'']\<rparr>)]"

definition example_opt :: PrepareImageOptions where
  "example_opt = \<lparr>FromImage = ''busybox'', ToImage = [], ManifestIndex = 0\<rparr>"

text \<open>
  A build that opens the pipe, writes three bytes into it and then fails, and two
  schedules for it. In the first the reader forwards the three bytes before the
  build fails; in the second it has read them but tests the flag only after the
  producer has set it.
\<close>

definition example_Error_text :: "error \<Rightarrow> string" where
  "example_Error_text e =
     (case e of
        io_EOF \<Rightarrow> ''EOF''
      | context_Canceled \<Rightarrow> ''context canceled''
      | context_DeadlineExceeded \<Rightarrow> ''context deadline exceeded''
      | errors_New m \<Rightarrow> m
      | errors_Errorf f as \<Rightarrow> f
      | errors_Wrapf c f as \<Rightarrow> f)"

definition example_build_env :: build_env where
  "example_build_env =
     \<lparr>Build_opens = True,
      Build_writes = [''abc''],
      Build_result = ([], Some (errors_New ''disk full'')),
      Error_text = example_Error_text,
      WriteFile_result = None,
      OpenFile_result = None,
      Close_result = None,
      stream_Send = (\<lambda>sent r. None),
      BufferSize = 32768\<rparr>"

definition example_pipe :: PipeWrapper where
  "example_pipe = \<lparr>PipeFile = ''/var/run/isula-build/exporter'', Done = False, Err = None\<rparr>"

definition example_schedule :: "task list" where
  "example_schedule =
     [Consumer, Producer, Producer, Consumer, Producer, Consumer, Consumer, Consumer,
      Producer, Producer, Producer, Producer]"

definition dropping_schedule :: "task list" where
  "dropping_schedule =
     [Consumer, Producer, Producer, Consumer, Producer, Consumer, Producer, Producer,
      Producer, Producer, Consumer]"

text \<open>
  A build that fails before it opens the pipe, with a producer whose write of the
  error text fails, and two schedules for it: the reader starts first, or the
  producer has returned before the reader starts.
\<close>

definition failing_write_env :: build_env where
  "failing_write_env =
     \<lparr>Build_opens = False,
      Build_writes = [],
      Build_result = ([], Some (errors_New ''no such file'')),
      Error_text = example_Error_text,
      WriteFile_result = Some (errors_New ''permission denied''),
      OpenFile_result = None,
      Close_result = None,
      stream_Send = (\<lambda>sent r. None),
      BufferSize = 32768\<rparr>"

definition reader_first_schedule :: "task list" where
  "reader_first_schedule = [Consumer, Producer, Producer, Producer, Producer]"

definition producer_first_schedule :: "task list" where
  "producer_first_schedule = [Producer, Producer, Producer, Producer, Consumer]"


section \<open>Lemmas about the string and path functions\<close>

lemma split_on_not_Nil: "split_on c s \<noteq> []"
  by (induction s) (auto split: list.splits)

lemma split_on_append: "split_on c (a @ c # b) = split_on c a @ split_on c b"
proof (induction a)
  case Nil
  then show ?case by simp
next
  case (Cons x a)
  then show ?case
    using split_on_not_Nil [of c a]
    by (cases "split_on c a") auto
qed

lemma path_elements_append:
  "path_elements (a @ CHR ''/'' # b) = path_elements a @ path_elements b"
  by (simp add: path_elements_def split_on_append)

lemma path_elements_slash: "path_elements (CHR ''/'' # b) = path_elements b"
  by (simp add: path_elements_def)

lemma path_Join_skip_empty:
  assumes "r \<noteq> []"
  shows "path_Join [r, [], n] = path_Join [r, n]"
proof -
  have e: "path_elements (r @ CHR ''/'' # CHR ''/'' # n) = path_elements (r @ CHR ''/'' # n)"
    by (simp add: path_elements_append path_elements_slash)
  from assms have h: "hd (r @ CHR ''/'' # CHR ''/'' # n) = hd (r @ CHR ''/'' # n)"
    by simp
  show ?thesis
    using assms e h by (simp add: path_Join_def path_Clean_def)
qed

lemma SplitN2_colon:
  assumes "CHR '':'' \<notin> set t"
  shows "strings_SplitN2 CHR '':'' (t @ '':'' @ rest) = [t, rest]"
  using assms
  by (simp add: strings_SplitN2_def takeWhile_append dropWhile_append)


section \<open>Lemmas about name resolution\<close>

lemma keepRegistries_filter:
  "keepRegistries ext rs = filter (registryAccepted ext) rs"
  by (induction rs) (auto simp: registryAccepted_def split: sum.splits option.splits)

lemma buildCandidates_map:
  "buildCandidates ext name rs = map (candidateFor ext name) (filter (\<lambda>r. r \<noteq> []) rs)"
  by (induction rs)
     (auto simp: candidateFor_def strings_ContainsRune_def path_Join_skip_empty Let_def
           split: option.splits)

lemma stage_events_no_registry:
  "Call_UnqualifiedSearchRegistries \<notin> set (snd (tryResolveNameInStore ext st name))"
  "Call_FindRegistry r \<notin> set (snd (tryResolveNameInStore ext st name))"
  "Call_UnqualifiedSearchRegistries \<notin> set (snd (tryResolveNameWithTransport ext name))"
  "Call_FindRegistry r \<notin> set (snd (tryResolveNameWithTransport ext name))"
  "Call_UnqualifiedSearchRegistries \<notin> set (snd (tryResolveNameWithDockerReference ext name))"
  "Call_FindRegistry r \<notin> set (snd (tryResolveNameWithDockerReference ext name))"
  by (auto simp: tryResolveNameInStore_def tryResolveNameWithTransport_def
        tryResolveNameWithDockerReference_def Let_def
      split: option.splits list.splits sum.splits if_splits)


section \<open>Lemmas about the candidate loop\<close>

lemma pullImage_no_parse:
  "filter is_ParseImageName (snd (snd (pullImage ext st po))) = []"
  by (simp add: pullImage_def is_ParseImageName_def split: option.splits prod.splits)

lemma lookupOrPull_no_parse:
  "filter is_ParseImageName (snd (snd (lookupOrPull ext st sref destImage))) = []"
proof (cases "ParseStoreReference ext st destImage")
  case (Inl e)
  then show ?thesis
    by (simp add: lookupOrPull_def is_ParseImageName_def)
next
  case (Inr destRef)
  show ?thesis
  proof (cases "GetStoreImage ext st destRef")
    case (Inr img)
    with \<open>ParseStoreReference ext st destImage = Inr destRef\<close> show ?thesis
      by (simp add: lookupOrPull_def is_ParseImageName_def)
  next
    case (Inl e0)
    obtain r st' tp where pi:
      "pullImage ext st \<lparr>srcRef = sref, dstRef = destRef, dstName = destImage\<rparr> = (r, st', tp)"
      by (cases "pullImage ext st \<lparr>srcRef = sref, dstRef = destRef, dstName = destImage\<rparr>")
    have tp: "filter is_ParseImageName tp = []"
      using pullImage_no_parse
        [of ext st "\<lparr>srcRef = sref, dstRef = destRef, dstName = destImage\<rparr>"] pi
      by simp
    from Inl pi tp \<open>ParseStoreReference ext st destImage = Inr destRef\<close> show ?thesis
      by (simp add: lookupOrPull_def is_ParseImageName_def split: sum.splits)
  qed
qed

lemma tryCandidate_parse_calls:
  "filter is_ParseImageName (snd (snd (tryCandidate ext opt transport st c))) =
     [Call_ParseImageName (sourceName ext opt transport c)]"
proof -
  have b: "is_ParseImageName (Call_ParseImageName n)" for n
    by (simp add: is_ParseImageName_def)
  show ?thesis
    by (simp add: tryCandidate_def sourceName_def Let_def lookupOrPull_no_parse b split_beta
      split: sum.splits)
qed

lemma pullLoop_found:
  "fst (fst (pullLoop ext opt transport st e cs)) =
     firstFound (attemptOutcomes ext opt transport st cs)"
proof (induction cs arbitrary: st e)
  case Nil
  then show ?case by simp
next
  case (Cons c cs)
  obtain a st' t where tc: "tryCandidate ext opt transport st c = (a, st', t)"
    by (cases "tryCandidate ext opt transport st c")
  show ?case
  proof (cases a)
    case (Found ref img)
    with tc show ?thesis by simp
  next
    case Skipped
    with tc Cons.IH [of st' e] show ?thesis
      by (auto split: prod.splits)
  next
    case (PullFailed err)
    with tc Cons.IH [of st' "Some err"] show ?thesis
      by (auto split: prod.splits)
  qed
qed

lemma pullLoop_errPull:
  "snd (fst (pullLoop ext opt transport st e cs)) =
     (if pullErrors (attemptOutcomes ext opt transport st cs) = [] then e
      else Some (last (pullErrors (attemptOutcomes ext opt transport st cs))))"
proof (induction cs arbitrary: st e)
  case Nil
  then show ?case by simp
next
  case (Cons c cs)
  obtain a st' t where tc: "tryCandidate ext opt transport st c = (a, st', t)"
    by (cases "tryCandidate ext opt transport st c")
  show ?case
  proof (cases a)
    case (Found ref img)
    with tc show ?thesis by simp
  next
    case Skipped
    with tc Cons.IH [of st' e] show ?thesis
      by (auto split: prod.splits)
  next
    case (PullFailed err)
    with tc Cons.IH [of st' "Some err"] show ?thesis
      by (auto split: prod.splits)
  qed
qed

lemma pullLoop_parse_calls:
  "filter is_ParseImageName (snd (snd (pullLoop ext opt transport st e cs))) =
     map (\<lambda>c. Call_ParseImageName (sourceName ext opt transport c))
       (take (length (attemptOutcomes ext opt transport st cs)) cs)"
proof (induction cs arbitrary: st e)
  case Nil
  then show ?case by simp
next
  case (Cons c cs)
  obtain a st' t where tc: "tryCandidate ext opt transport st c = (a, st', t)"
    by (cases "tryCandidate ext opt transport st c")
  have pc: "filter is_ParseImageName t = [Call_ParseImageName (sourceName ext opt transport c)]"
    using tryCandidate_parse_calls [of ext opt transport st c] tc by simp
  show ?case
  proof (cases a)
    case (Found ref img)
    with tc pc show ?thesis by simp
  next
    case Skipped
    with tc pc Cons.IH [of st' e] show ?thesis
      by (auto split: prod.splits)
  next
    case (PullFailed err)
    with tc pc Cons.IH [of st' "Some err"] show ?thesis
      by (auto split: prod.splits)
  qed
qed

lemma attemptOutcomes_shape:
  "length (attemptOutcomes ext opt transport st cs) \<le> length cs
   \<and> firstFound (butlast (attemptOutcomes ext opt transport st cs)) = None
   \<and> (firstFound (attemptOutcomes ext opt transport st cs) = None \<longrightarrow>
        length (attemptOutcomes ext opt transport st cs) = length cs)"
proof (induction cs arbitrary: st)
  case Nil
  then show ?case by simp
next
  case (Cons c cs)
  obtain a st' t where tc: "tryCandidate ext opt transport st c = (a, st', t)"
    by (cases "tryCandidate ext opt transport st c")
  show ?case
  proof (cases a)
    case (Found ref img)
    with tc show ?thesis by simp
  next
    case Skipped
    with tc Cons.IH [of st'] show ?thesis
      by (cases "attemptOutcomes ext opt transport st' cs") auto
  next
    case (PullFailed err)
    with tc Cons.IH [of st'] show ?thesis
      by (cases "attemptOutcomes ext opt transport st' cs") auto
  qed
qed

lemma pullLoop_append:
  assumes "fst (fst (pullLoop ext opt transport st e pre)) = None"
  shows "pullLoop ext opt transport st e (pre @ post) =
     (case pullLoop ext opt transport st e pre of
        ((r, e1), st1, t1) \<Rightarrow>
          (case pullLoop ext opt transport st1 e1 post of
             (r2, st2, t2) \<Rightarrow> (r2, st2, t1 @ t2)))"
  using assms
proof (induction pre arbitrary: st e)
  case Nil
  then show ?case by (simp split: prod.splits)
next
  case (Cons c cs)
  obtain a st' t where tc: "tryCandidate ext opt transport st c = (a, st', t)"
    by (cases "tryCandidate ext opt transport st c")
  show ?case
  proof (cases a)
    case (Found ref img)
    with tc Cons.prems show ?thesis by simp
  next
    case Skipped
    with tc Cons.prems have "fst (fst (pullLoop ext opt transport st' e cs)) = None"
      by (auto split: prod.splits)
    from Cons.IH [OF this] tc Skipped show ?thesis
      by (auto split: prod.splits)
  next
    case (PullFailed err)
    with tc Cons.prems have "fst (fst (pullLoop ext opt transport st' (Some err) cs)) = None"
      by (auto split: prod.splits)
    from Cons.IH [OF this] tc PullFailed show ?thesis
      by (auto split: prod.splits)
  qed
qed

lemma lookupOrPull_present:
  assumes "ParseStoreReference ext st destImage = Inr destRef"
      and "GetStoreImage ext st destRef = Inr img"
  shows "lookupOrPull ext st sref destImage =
     (Found destRef img, st, [Call_ParseStoreReference destImage, Call_GetStoreImage destRef])"
  using assms by (simp add: lookupOrPull_def)

lemma locallyPresent_tryCandidate:
  assumes "locallyPresent ext opt transport st c = Some (ref, img)"
  shows "\<exists>t. tryCandidate ext opt transport st c = (Found ref img, st, t)
             \<and> filter is_pull_event t = []"
proof -
  from assms obtain sref where
    p: "alltransports_ParseImageName ext (sourceName ext opt transport c) = Inr sref"
    by (auto simp: locallyPresent_def split: sum.splits)
  from assms p obtain destImage where
    d: "(if transport = DockerArchiveTransport \<or> transport = OCIArchiveTransport
         then Inr (ToImage opt) else getLocalImageNameFromRef (Some sref)) = Inr destImage"
    by (simp add: locallyPresent_def split: sum.splits)
  from assms p d have
    "ParseStoreReference ext st destImage = Inr ref \<and> GetStoreImage ext st ref = Inr img"
    by (simp add: locallyPresent_def split: sum.splits)
  then have l: "lookupOrPull ext st sref destImage =
     (Found ref img, st, [Call_ParseStoreReference destImage, Call_GetStoreImage ref])"
    by (simp add: lookupOrPull_present)
  have e: "\<not> is_pull_event (Call_ParseImageName n)"
    "\<not> is_pull_event (Call_ParseStoreReference n)"
    "\<not> is_pull_event (Call_GetStoreImage r)" for n r
    by (simp_all add: is_pull_event_def)
  consider (da) "transport = DockerArchiveTransport"
    | (oa) "transport \<noteq> DockerArchiveTransport" "transport = OCIArchiveTransport"
    | (other) "transport \<noteq> DockerArchiveTransport" "transport \<noteq> OCIArchiveTransport"
    by blast
  then show ?thesis
  proof cases
    case da
    from p da have p': "alltransports_ParseImageName ext
        (FormatTransport ext transport c @ '':@'' @ strconv_Itoa (ManifestIndex opt)) = Inr sref"
      by (simp add: sourceName_def)
    from d da have d': "destImage = ToImage opt" by simp
    from l d' have l': "lookupOrPull ext st sref (ToImage opt) =
       (Found ref img, st, [Call_ParseStoreReference destImage, Call_GetStoreImage ref])"
      by simp
    have "tryCandidate ext opt transport st c =
        (Found ref img, st,
         [Call_ParseImageName
            (FormatTransport ext transport c @ '':@'' @ strconv_Itoa (ManifestIndex opt)),
          Call_ParseStoreReference destImage, Call_GetStoreImage ref])"
      unfolding tryCandidate_def Let_def using da p' l' by simp
    then show ?thesis using e by simp
  next
    case oa
    from p oa have p': "alltransports_ParseImageName ext (FormatTransport ext transport c) =
        Inr sref"
      by (simp add: sourceName_def)
    from d oa have d': "destImage = ToImage opt" by simp
    from l d' have l': "lookupOrPull ext st sref (ToImage opt) =
       (Found ref img, st, [Call_ParseStoreReference destImage, Call_GetStoreImage ref])"
      by simp
    have "tryCandidate ext opt transport st c =
        (Found ref img, st,
         [Call_ParseImageName (FormatTransport ext transport c),
          Call_ParseStoreReference destImage, Call_GetStoreImage ref])"
      unfolding tryCandidate_def Let_def using oa p' l' by simp
    then show ?thesis using e by simp
  next
    case other
    from p other have p': "alltransports_ParseImageName ext (FormatTransport ext transport c) =
        Inr sref"
      by (simp add: sourceName_def)
    from d other have d': "getLocalImageNameFromRef (Some sref) = Inr destImage" by simp
    have "tryCandidate ext opt transport st c =
        (Found ref img, st,
         [Call_ParseImageName (FormatTransport ext transport c),
          Call_ParseStoreReference destImage, Call_GetStoreImage ref])"
      unfolding tryCandidate_def Let_def using other p' d' l by simp
    then show ?thesis using e by simp
  qed
qed


lemma lookupOrPull_attempt:
  "fst (lookupOrPull ext st sref destImage) =
     (case ParseStoreReference ext st destImage of
        Inl e \<Rightarrow> Skipped
      | Inr destRef \<Rightarrow>
          (case GetStoreImage ext st destRef of
             Inr img \<Rightarrow> Found destRef img
           | Inl e \<Rightarrow>
               (case fst (pullImage ext st
                            \<lparr>srcRef = sref, dstRef = destRef, dstName = destImage\<rparr>) of
                  Inl err \<Rightarrow> PullFailed err
                | Inr pulledRef \<Rightarrow>
                    (case GetStoreImage ext
                            (fst (snd (pullImage ext st
                               \<lparr>srcRef = sref, dstRef = destRef, dstName = destImage\<rparr>)))
                            pulledRef of
                       Inl err \<Rightarrow> PullFailed err
                     | Inr pulledImg \<Rightarrow> Found pulledRef pulledImg))))
   \<and> fst (snd (lookupOrPull ext st sref destImage)) =
     (case ParseStoreReference ext st destImage of
        Inl e \<Rightarrow> st
      | Inr destRef \<Rightarrow>
          (case GetStoreImage ext st destRef of
             Inr img \<Rightarrow> st
           | Inl e \<Rightarrow>
               fst (snd (pullImage ext st
                           \<lparr>srcRef = sref, dstRef = destRef, dstName = destImage\<rparr>))))"
proof (cases "ParseStoreReference ext st destImage")
  case (Inl e)
  then show ?thesis by (simp add: lookupOrPull_def)
next
  case (Inr destRef)
  show ?thesis
  proof (cases "GetStoreImage ext st destRef")
    case (Inr img)
    with \<open>ParseStoreReference ext st destImage = Inr destRef\<close> show ?thesis
      by (simp add: lookupOrPull_def)
  next
    case (Inl e0)
    obtain r st' tp where pi:
      "pullImage ext st \<lparr>srcRef = sref, dstRef = destRef, dstName = destImage\<rparr> = (r, st', tp)"
      by (cases "pullImage ext st \<lparr>srcRef = sref, dstRef = destRef, dstName = destImage\<rparr>")
    from Inl pi \<open>ParseStoreReference ext st destImage = Inr destRef\<close> show ?thesis
      by (cases r) (simp_all add: lookupOrPull_def split: sum.splits)
  qed
qed

lemma tryCandidate_attemptOf:
  "fst (tryCandidate ext opt transport st c) = attemptOf ext opt transport st c
   \<and> fst (snd (tryCandidate ext opt transport st c)) = storeAfterAttempt ext opt transport st c"
proof -
  have l: "\<And>sref d. fst (case lookupOrPull ext st sref d of (a, st', t) \<Rightarrow> (a, st', x # t)) =
      fst (lookupOrPull ext st sref d)" for x
    by (simp add: split_beta)
  have l2: "\<And>sref d. fst (snd (case lookupOrPull ext st sref d of (a, st', t) \<Rightarrow> (a, st', x # t))) =
      fst (snd (lookupOrPull ext st sref d))" for x
    by (simp add: split_beta)
  consider (da) "transport = DockerArchiveTransport"
    | (oa) "transport \<noteq> DockerArchiveTransport" "transport = OCIArchiveTransport"
    | (other) "transport \<noteq> DockerArchiveTransport" "transport \<noteq> OCIArchiveTransport"
    by blast
  then show ?thesis
  proof cases
    case da
    show ?thesis
    proof (cases "alltransports_ParseImageName ext
        (FormatTransport ext transport c @ '':@'' @ strconv_Itoa (ManifestIndex opt))")
      case (Inl e)
      with da show ?thesis
        by (simp add: tryCandidate_def attemptOf_def storeAfterAttempt_def locallyPresent_def
            pullRequest_def sourceName_def Let_def)
    next
      case (Inr sref)
      with da show ?thesis
        unfolding tryCandidate_def Let_def
        by (simp add: l l2 lookupOrPull_attempt attemptOf_def storeAfterAttempt_def
            locallyPresent_def pullRequest_def sourceName_def
            split: sum.splits)
    qed
  next
    case oa
    show ?thesis
    proof (cases "alltransports_ParseImageName ext (FormatTransport ext transport c)")
      case (Inl e)
      with oa show ?thesis
        by (simp add: tryCandidate_def attemptOf_def storeAfterAttempt_def locallyPresent_def
            pullRequest_def sourceName_def Let_def)
    next
      case (Inr sref)
      with oa show ?thesis
        unfolding tryCandidate_def Let_def
        by (simp add: l l2 lookupOrPull_attempt attemptOf_def storeAfterAttempt_def
            locallyPresent_def pullRequest_def sourceName_def
            split: sum.splits)
    qed
  next
    case other
    show ?thesis
    proof (cases "alltransports_ParseImageName ext (FormatTransport ext transport c)")
      case (Inl e)
      with other show ?thesis
        by (simp add: tryCandidate_def attemptOf_def storeAfterAttempt_def locallyPresent_def
            pullRequest_def sourceName_def Let_def)
    next
      case (Inr sref)
      show ?thesis
      proof (cases "getLocalImageNameFromRef (Some sref)")
        case (Inl e)
        with Inr other show ?thesis
          by (simp add: tryCandidate_def attemptOf_def storeAfterAttempt_def locallyPresent_def
              pullRequest_def sourceName_def Let_def)
      next
        case (Inr destImage)
        with \<open>alltransports_ParseImageName ext (FormatTransport ext transport c) = Inr sref\<close>
          other show ?thesis
          unfolding tryCandidate_def Let_def
          by (simp add: l l2 lookupOrPull_attempt attemptOf_def storeAfterAttempt_def
              locallyPresent_def pullRequest_def sourceName_def
              split: sum.splits)
      qed
    qed
  qed
qed

lemma pullImage_copy:
  assumes "signature_DefaultPolicy ext = None" and "signature_NewPolicyContext ext = None"
  shows "fst (pullImage ext st po) =
     (case fst (copy_Image ext st (dstRef po) (srcRef po)) of
        Some err \<Rightarrow> Inl err
      | None \<Rightarrow> Inr (dstRef po))
   \<and> fst (snd (pullImage ext st po)) = snd (copy_Image ext st (dstRef po) (srcRef po))"
  using assms
  by (cases "copy_Image ext st (dstRef po) (srcRef po)")
     (simp add: pullImage_def split: option.splits)

lemma FindImage_cases:
  "(\<forall>err. reference_Parse ext c = Some err \<longrightarrow>
      FindImage ext st c =
        (Inl (errors_Wrapf err ''parse image %q failed'' [ArgString c]),
         [Call_reference_Parse c]))
   \<and> (reference_Parse ext c = None \<and> storeLookup ext st c = None \<longrightarrow>
      FindImage ext st c =
        (Inl (errors_Errorf ''image %q not found in local store'' [ArgString c]),
         [Call_reference_Parse c, Call_store_Image (c @ '':'' @ DefaultTag),
          Call_store_Image c]))
   \<and> (\<forall>img. reference_Parse ext c = None \<and> storeLookup ext st c = Some img \<and> ID img \<noteq> [] \<longrightarrow>
      FindImage ext st c =
        (case ParseStoreReference ext st (ID img) of
           Inl err \<Rightarrow>
             (Inl (errors_Wrapf err ''error parsing reference to image %q''
                     [ArgString (ID img)]),
              Call_reference_Parse c # storeLookupCalls ext st c
              @ [Call_ParseStoreReference (ID img)])
         | Inr ref \<Rightarrow>
             (case GetStoreImage ext st ref of
                Inl err \<Rightarrow>
                  (Inl (errors_Wrapf err ''failed to parse image %q in local store''
                          [ArgString (ID img)]),
                   Call_reference_Parse c # storeLookupCalls ext st c
                   @ [Call_ParseStoreReference (ID img), Call_GetStoreImage ref])
              | Inr img' \<Rightarrow>
                  (Inr (ref, img'),
                   Call_reference_Parse c # storeLookupCalls ext st c
                   @ [Call_ParseStoreReference (ID img), Call_GetStoreImage ref]))))"
  by (auto simp: FindImage_def tryResolveNameInStore_def storeLookup_def storeLookupCalls_def
      split: option.splits sum.splits)


section \<open>Lemmas about the build pipeline\<close>

lemma done_flag_updates [simp]:
  "done_flag (s\<lparr>fifo := a\<rparr>) = done_flag s"
  "done_flag (s\<lparr>reader_present := b\<rparr>) = done_flag s"
  "done_flag (s\<lparr>writer_open := b\<rparr>) = done_flag s"
  "done_flag (s\<lparr>writer_seen := b\<rparr>) = done_flag s"
  "done_flag (s\<lparr>imageID := i\<rparr>) = done_flag s"
  "done_flag (s\<lparr>producer := p\<rparr>) = done_flag s"
  "done_flag (s\<lparr>consumer := c\<rparr>) = done_flag s"
  "done_flag (s\<lparr>sent := ss\<rparr>) = done_flag s"
  "done_flag (s\<lparr>events := es\<rparr>) = done_flag s"
  "done_flag (s\<lparr>written := a\<rparr>) = done_flag s"
  "done_flag (s\<lparr>err_written := a\<rparr>) = done_flag s"
  "done_flag (s\<lparr>discarded := a\<rparr>) = done_flag s"
  by (simp_all add: done_flag_def)

lemma done_flag_Close:
  "pipeWrapper s \<noteq> None \<Longrightarrow>
   done_flag (s\<lparr>pipeWrapper := map_option PipeWrapper_Close (pipeWrapper s)\<rparr>)"
  by (auto simp: done_flag_def PipeWrapper_Close_def)

lemma producer_step_reader_inv:
  assumes "reader_inv s"
  shows "reader_inv (producer_step env s)"
proof (cases "producer s")
  case (P_Build ws)
  with assms show ?thesis
    by (cases ws; cases "consumer s") (auto simp: reader_inv_def producer_step_def)
next
  case P_Finish
  with assms show ?thesis
    by (cases "consumer s")
       (auto simp: reader_inv_def producer_step_def split: prod.splits option.splits)
next
  case (P_WriteFile e)
  with assms show ?thesis
    by (cases "consumer s")
       (auto simp: reader_inv_def producer_step_def split: prod.splits option.splits)
qed (use assms in \<open>cases "consumer s"; auto simp: reader_inv_def producer_step_def\<close>)+

lemma consumer_step_reader_inv:
  assumes "reader_inv s"
  shows "reader_inv (consumer_step env s)"
  using assms
  by (cases "consumer s")
     (auto simp: reader_inv_def consumer_step_def split: option.splits)

lemma producer_step_producer_inv:
  assumes "producer_inv env s"
  shows "producer_inv env (producer_step env s)"
proof (cases "producer s")
  case P_Start
  with assms show ?thesis by (simp add: producer_inv_def producer_step_def)
next
  case P_Open
  with assms show ?thesis by (simp add: producer_inv_def producer_step_def)
next
  case (P_Build ws)
  show ?thesis
  proof (cases ws)
    case Nil
    with assms P_Build show ?thesis
      by (auto simp: producer_inv_def producer_step_def)
  next
    case (Cons w ws')
    from assms P_Build Cons obtain ds where
      ds: "Build_writes env = ds @ w # ws'"
      and w: "written s = concat ds \<or> (\<not> reader_present s \<and> prefix (written s) (concat ds))"
      by (auto simp: producer_inv_def)
    from assms P_Build have rest: "writer_open s" "writer_seen s" "err_written s = []"
      "Build_opens env" "pipeWrapper s \<noteq> None"
      by (auto simp: producer_inv_def)
    have bw: "Build_writes env = (ds @ [w]) @ ws'" using ds by simp
    have cc: "concat (Build_writes env) = concat ds @ w @ concat ws'" using ds by simp
    show ?thesis
    proof (cases "reader_present s")
      case True
      with w have "written s = concat ds" by simp
      then have "written s @ w = concat (ds @ [w])" by simp
      with True P_Build Cons rest bw cc \<open>written s = concat ds\<close> show ?thesis
        unfolding producer_inv_def producer_step_def by (auto intro!: exI [of _ "ds @ [w]"])
    next
      case False
      from w have "prefix (written s) (concat ds)" by auto
      then have p: "prefix (written s) (concat (ds @ [w]))" by simp
      from assms have "prefix (written s) (concat (Build_writes env))"
        by (simp add: producer_inv_def)
      with False P_Build Cons rest bw p show ?thesis
        unfolding producer_inv_def producer_step_def by (auto intro!: exI [of _ "ds @ [w]"])
    qed
  qed
next
  case P_Finish
  with assms show ?thesis
    by (auto simp: producer_inv_def producer_step_def split: prod.splits option.splits)
next
  case (P_Close e)
  with assms show ?thesis
    by (auto simp: producer_inv_def producer_step_def done_flag_Close)
next
  case (P_WriteFile e)
  with assms show ?thesis
    by (auto simp: producer_inv_def producer_step_def done_flag_def split: option.splits)
next
  case (P_Returned r)
  with assms show ?thesis by (simp add: producer_step_def)
qed

lemma consumer_step_producer_inv:
  assumes "producer_inv env s" and "reader_inv s"
  shows "producer_inv env (consumer_step env s)"
proof -
  have eqs: "written (consumer_step env s) = written s"
    "err_written (consumer_step env s) = err_written s"
    "writer_open (consumer_step env s) = writer_open s"
    "writer_seen (consumer_step env s) = writer_seen s"
    "pipeWrapper (consumer_step env s) = pipeWrapper s"
    "producer (consumer_step env s) = producer s"
    "done_flag (consumer_step env s) = done_flag s"
    by (simp_all add: consumer_step_def done_flag_def split: consumer_pc.splits option.splits)
  have rp: "writer_seen s \<Longrightarrow> \<not> reader_present s \<Longrightarrow> \<not> reader_present (consumer_step env s)"
    using assms(2)
    by (cases "consumer s") (auto simp: reader_inv_def consumer_step_def split: option.splits)
  show ?thesis
  proof (cases "producer s")
    case (P_Build ws)
    with assms(1) rp show ?thesis
      unfolding producer_inv_def eqs by auto
  qed (use assms(1) in \<open>unfold producer_inv_def eqs, simp_all\<close>)
qed

lemma err_written_before_done:
  assumes "producer_inv env s" and "\<not> done_flag s"
  shows "err_written s = []"
proof (cases "producer s")
  case (P_Returned r)
  with assms show ?thesis
    by (cases r) (auto simp: producer_inv_def done_flag_def split: if_splits)
qed (use assms in \<open>auto simp: producer_inv_def\<close>)

lemma prefix_append_same_length:
  assumes "prefix a b" and "a = b @ c"
  shows "c = [] \<and> a = b"
proof -
  from assms(1) have "length a \<le> length b" by (rule prefix_length_le)
  with assms(2) show ?thesis by simp
qed

lemma producer_step_content_inv:
  assumes c: "content_inv env s" and p: "producer_inv env s" and r: "reader_inv s"
  shows "content_inv env (producer_step env s)"
proof (cases "producer s")
  case P_Start
  then have eq: "producer_step env s =
    s\<lparr>producer := (if Build_opens env \<and> pipeWrapper s \<noteq> None then P_Open else P_Finish),
      events := events s @ [Ev_syncBuildStatus, Ev_close_startBuild]\<rparr>"
    by (simp add: producer_step_def)
  from c show ?thesis unfolding eq
    by (cases "consumer s") (simp_all add: content_inv_def in_hand_def forwarded_def)
next
  case P_Open
  from p P_Open have ns: "\<not> writer_seen s" by (simp add: producer_inv_def)
  show ?thesis
  proof (cases "reader_present s")
    case False
    with P_Open c show ?thesis by (simp add: producer_step_def)
  next
    case True
    with P_Open have eq: "producer_step env s =
      s\<lparr>writer_open := True, writer_seen := True, producer := P_Build (Build_writes env)\<rparr>"
      by (simp add: producer_step_def)
    from c r ns show ?thesis unfolding eq
      by (cases "consumer s")
         (simp_all add: content_inv_def in_hand_def forwarded_def reader_inv_def)
  qed
next
  case (P_Build ws)
  show ?thesis
  proof (cases ws)
    case Nil
    with P_Build have eq: "producer_step env s = s\<lparr>writer_open := False, producer := P_Finish\<rparr>"
      by (simp add: producer_step_def)
    from c show ?thesis unfolding eq
      by (cases "consumer s")
         (auto simp: content_inv_def in_hand_def forwarded_def split: option.splits)
  next
    case (Cons w ws')
    from p P_Build have wo: "writer_open s" and ew: "err_written s = []"
      by (simp_all add: producer_inv_def)
    show ?thesis
    proof (cases "reader_present s")
      case False
      with P_Build Cons have eq: "producer_step env s = s\<lparr>producer := P_Build ws'\<rparr>"
        by (simp add: producer_step_def)
      from c show ?thesis unfolding eq
        by (cases "consumer s") (simp_all add: content_inv_def in_hand_def forwarded_def)
    next
      case True
      with P_Build Cons have eq: "producer_step env s =
        s\<lparr>fifo := fifo s @ w, written := written s @ w, producer := P_Build ws'\<rparr>"
        by (simp add: producer_step_def)
      from c r wo ew True show ?thesis unfolding eq
        by (cases "consumer s")
           (auto simp: content_inv_def in_hand_def forwarded_def reader_inv_def
                 split: option.splits)
    qed
  qed
next
  case P_Finish
  obtain iid res where br: "Build_result env = (iid, res)" by (cases "Build_result env")
  define q where "q = (case res of None \<Rightarrow> P_Returned None
    | Some berr \<Rightarrow> if pipeWrapper s \<noteq> None then P_Close berr else P_Returned (Some berr))"
  from P_Finish br have eq: "producer_step env s = s\<lparr>imageID := iid, producer := q\<rparr>"
    by (cases res) (simp_all add: producer_step_def q_def)
  from c show ?thesis unfolding eq
    by (cases "consumer s") (simp_all add: content_inv_def in_hand_def forwarded_def)
next
  case (P_Close e)
  then have eq: "producer_step env s =
    s\<lparr>pipeWrapper := map_option PipeWrapper_Close (pipeWrapper s), producer := P_WriteFile e\<rparr>"
    by (simp add: producer_step_def)
  from p P_Close have pw: "pipeWrapper s \<noteq> None" by (simp add: producer_inv_def)
  from c done_flag_Close [OF pw] show ?thesis unfolding eq
    by (cases "consumer s") (auto simp: content_inv_def in_hand_def forwarded_def)
next
  case (P_WriteFile e)
  show ?thesis
  proof (cases "WriteFile_result env")
    case (Some perr)
    with P_WriteFile have eq: "producer_step env s =
      s\<lparr>events := events s
           @ [Ev_Warnf ''Write error [%v] in to pipe file failed: %v''
                [ArgError (Some e), ArgError (Some perr)]],
        producer := P_Returned (Some e)\<rparr>"
      by (simp add: producer_step_def)
    from c show ?thesis unfolding eq
      by (cases "consumer s") (simp_all add: content_inv_def in_hand_def forwarded_def)
  next
    case None
    show ?thesis
    proof (cases "reader_present s")
      case False
      with P_WriteFile None c show ?thesis by (simp add: producer_step_def)
    next
      case True
      with P_WriteFile None have eq: "producer_step env s =
        s\<lparr>fifo := fifo s @ Error_text env e,
          err_written := err_written s @ Error_text env e,
          writer_seen := True,
          producer := P_Returned (Some e)\<rparr>"
        by (simp add: producer_step_def)
      from c show ?thesis unfolding eq
        by (cases "consumer s")
           (auto simp: content_inv_def in_hand_def forwarded_def split: option.splits)
    qed
  qed
next
  case (P_Returned x)
  with c show ?thesis by (simp add: producer_step_def)
qed

lemma consumer_step_content_inv:
  assumes c: "content_inv env s" and p: "producer_inv env s" and r: "reader_inv s"
  shows "content_inv env (consumer_step env s)"
proof (cases "consumer s")
  case C_Start
  with c r show ?thesis
    by (auto simp: content_inv_def consumer_step_def in_hand_def forwarded_def
             reader_inv_def split: option.splits)
next
  case C_Opening
  with c show ?thesis
    by (auto simp: content_inv_def consumer_step_def in_hand_def forwarded_def)
next
  case C_Read
  from c C_Read have cons: "forwarded s @ fifo s = written s @ err_written s"
    and pre: "prefix (forwarded s) (written s)"
    by (simp_all add: content_inv_def in_hand_def)
  show ?thesis
  proof (cases "fifo s = []")
    case False
    with C_Read have eq: "consumer_step env s =
      s\<lparr>fifo := drop (BufferSize env) (fifo s),
        consumer := C_Check (take (BufferSize env) (fifo s)) None\<rparr>"
      by (simp add: consumer_step_def)
    from cons pre False show ?thesis unfolding eq
      by (auto simp: content_inv_def in_hand_def forwarded_def)
  next
    case True
    show ?thesis
    proof (cases "writer_open s")
      case wo: True
      with True C_Read c show ?thesis by (simp add: consumer_step_def)
    next
      case wo: False
      with True C_Read have eq: "consumer_step env s = s\<lparr>consumer := C_Check [] (Some io_EOF)\<rparr>"
        by (simp add: consumer_step_def)
      from cons True have "forwarded s = written s @ err_written s" by simp
      from prefix_append_same_length [OF pre this]
      have "err_written s = []" "forwarded s = written s" by simp_all
      with True wo show ?thesis unfolding eq
        by (simp add: content_inv_def in_hand_def forwarded_def)
    qed
  qed
next
  case (C_Check buf rerr)
  show ?thesis
  proof (cases "rerr = Some io_EOF \<or> done_flag s")
    case True
    with C_Check have eq: "consumer_step env s =
      s\<lparr>consumer := C_Returned None, reader_present := False, discarded := buf,
        events := events s @ [Ev_Debugf ''Piping build archive stream done'']
                  @ deferred_Close env (pipeWrapper s)\<rparr>"
      by (simp add: consumer_step_def done_flag_def)
    from c C_Check True show ?thesis unfolding eq
      by (auto simp: content_inv_def in_hand_def forwarded_def split: option.splits)
  next
    case False
    then have nd: "\<not> done_flag s" by simp
    from err_written_before_done [OF p nd] have ew: "err_written s = []" .
    show ?thesis
    proof (cases rerr)
      case None
      with C_Check False have eq: "consumer_step env s = s\<lparr>consumer := C_Send buf\<rparr>"
        by (simp add: consumer_step_def done_flag_def)
      from c C_Check have "forwarded s @ buf @ fifo s = written s @ err_written s"
        by (simp add: content_inv_def in_hand_def)
      with ew have "prefix (forwarded s @ buf) (written s)"
        by (metis append.assoc append_Nil2 prefixI)
      with c C_Check show ?thesis unfolding eq
        by (simp add: content_inv_def in_hand_def forwarded_def)
    next
      case (Some e)
      with C_Check False have eq: "consumer_step env s =
        s\<lparr>consumer := C_Returned (Some e), reader_present := False, discarded := buf,
          events := events s @ deferred_Close env (pipeWrapper s)\<rparr>"
        by (simp add: consumer_step_def done_flag_def)
      from c C_Check Some False show ?thesis unfolding eq
        by (simp add: content_inv_def in_hand_def forwarded_def)
    qed
  qed
next
  case (C_Send buf)
  show ?thesis
  proof (cases "stream_Send env (sent s) \<lparr>Data = buf, ImageID = []\<rparr>")
    case (Some serr)
    with C_Send have eq: "consumer_step env s =
      s\<lparr>consumer := C_Returned (Some serr), reader_present := False, discarded := buf,
        events := events s @ deferred_Close env (pipeWrapper s)\<rparr>"
      by (simp add: consumer_step_def)
    from c C_Send Some show ?thesis unfolding eq
      by (simp add: content_inv_def in_hand_def forwarded_def)
  next
    case None
    with C_Send have eq: "consumer_step env s =
      s\<lparr>sent := sent s @ [\<lparr>Data = buf, ImageID = []\<rparr>], consumer := C_Read\<rparr>"
      by (simp add: consumer_step_def)
    from c C_Send show ?thesis unfolding eq
      by (simp add: content_inv_def in_hand_def forwarded_def)
  qed
next
  case (C_Returned x)
  with c show ?thesis by (simp add: consumer_step_def)
qed

lemma step_inv:
  assumes "pipeline_inv env s"
  shows "pipeline_inv env (step env t s)"
  using assms
  by (cases t)
     (simp_all add: pipeline_inv_def step_def producer_step_reader_inv
        consumer_step_reader_inv producer_step_producer_inv consumer_step_producer_inv
        producer_step_content_inv consumer_step_content_inv)

lemma exec_inv:
  assumes "pipeline_inv env s"
  shows "pipeline_inv env (exec env sch s)"
  using assms
proof (induction sch arbitrary: s)
  case Nil
  then show ?case by simp
next
  case (Cons t ts)
  from Cons.prems have "pipeline_inv env (step env t s)" by (rule step_inv)
  then show ?case by (simp add: Cons.IH)
qed

lemma initial_inv: "pipeline_inv env (initial pw)"
  by (simp add: pipeline_inv_def reader_inv_def producer_inv_def content_inv_def
        initial_def in_hand_def forwarded_def)

lemma reachable_inv: "pipeline_inv env (exec env sch (initial pw))"
  by (rule exec_inv [OF initial_inv])

lemma exec_append: "exec env (a @ b) s = exec env b (exec env a s)"
  by (induction a arbitrary: s) auto

lemma pipeWrapper_None_exec:
  "pipeWrapper (exec env sch s) = None \<longleftrightarrow> pipeWrapper s = None"
proof (induction sch arbitrary: s)
  case Nil
  then show ?case by simp
next
  case (Cons t sch)
  have "pipeWrapper (step env t s) = None \<longleftrightarrow> pipeWrapper s = None"
    by (cases t)
       (simp_all add: step_def producer_step_def consumer_step_def
          split: producer_pc.splits consumer_pc.splits list.splits option.splits prod.splits)
  with Cons.IH [of "step env t s"] show ?case by simp
qed

lemma consumer_step_closer:
  assumes "writer_seen s" and "\<not> writer_open s" and "done_flag s"
  shows "writer_seen (consumer_step env s) \<and> \<not> writer_open (consumer_step env s)
         \<and> done_flag (consumer_step env s)
         \<and> steps_to_return (consumer (consumer_step env s)) \<le> steps_to_return (consumer s) - 1"
  using assms
  by (cases "consumer s")
     (auto simp: consumer_step_def done_flag_def split: option.splits)

lemma consumer_wakes:
  assumes "writer_seen s" and "\<not> writer_open s" and "done_flag s"
  shows "consumer_returned (exec env [Consumer, Consumer, Consumer, Consumer] s)"
proof -
  define s1 where "s1 = consumer_step env s"
  define s2 where "s2 = consumer_step env s1"
  define s3 where "s3 = consumer_step env s2"
  define s4 where "s4 = consumer_step env s3"
  have b0: "steps_to_return (consumer s) \<le> 4"
    by (cases "consumer s") simp_all
  from consumer_step_closer [OF assms, of env]
  have k1: "writer_seen s1" "\<not> writer_open s1" "done_flag s1"
    and b1: "steps_to_return (consumer s1) \<le> steps_to_return (consumer s) - 1"
    by (simp_all add: s1_def)
  from consumer_step_closer [OF k1, of env]
  have k2: "writer_seen s2" "\<not> writer_open s2" "done_flag s2"
    and b2: "steps_to_return (consumer s2) \<le> steps_to_return (consumer s1) - 1"
    by (simp_all add: s2_def)
  from consumer_step_closer [OF k2, of env]
  have k3: "writer_seen s3" "\<not> writer_open s3" "done_flag s3"
    and b3: "steps_to_return (consumer s3) \<le> steps_to_return (consumer s2) - 1"
    by (simp_all add: s3_def)
  from consumer_step_closer [OF k3, of env]
  have b4: "steps_to_return (consumer s4) \<le> steps_to_return (consumer s3) - 1"
    by (simp_all add: s4_def)
  from b0 b1 b2 b3 b4 have "steps_to_return (consumer s4) = 0" by arith
  then have "consumer_returned s4"
    by (cases "consumer s4") (simp_all add: consumer_returned_def)
  then show ?thesis
    by (simp add: step_def s1_def s2_def s3_def s4_def)
qed

lemma open_read_check:
  assumes "consumer s = C_Opening \<or> consumer s = C_Read"
      and "writer_seen s" and "\<not> writer_open s" and "done_flag s"
  shows "consumer (exec env [Consumer, Consumer, Consumer] s) = C_Returned None
         \<and> sent (exec env [Consumer, Consumer, Consumer] s) = sent s"
proof -
  have rd: "consumer (exec env [Consumer, Consumer] u) = C_Returned None
         \<and> sent (exec env [Consumer, Consumer] u) = sent u
         \<and> writer_seen (exec env [Consumer, Consumer] u)"
    if "consumer u = C_Read" "writer_seen u" "\<not> writer_open u" "done_flag u" for u
    using that
    by (auto simp: step_def consumer_step_def done_flag_def split: option.splits)
  have ret: "consumer_step env u = u" if "consumer u = C_Returned None" for u
    using that by (simp add: consumer_step_def)
  from assms(1) show ?thesis
  proof
    assume o: "consumer s = C_Opening"
    with assms(2) have eq: "consumer_step env s = s\<lparr>consumer := C_Read\<rparr>"
      by (simp add: consumer_step_def)
    have "exec env [Consumer, Consumer, Consumer] s =
          exec env [Consumer, Consumer] (s\<lparr>consumer := C_Read\<rparr>)"
      by (simp add: step_def eq)
    with rd [of "s\<lparr>consumer := C_Read\<rparr>"] assms(2-4) show ?thesis by simp
  next
    assume r: "consumer s = C_Read"
    from rd [OF r assms(2-4)] have
      c: "consumer (exec env [Consumer, Consumer] s) = C_Returned None"
      and t: "sent (exec env [Consumer, Consumer] s) = sent s" by simp_all
    have "exec env [Consumer, Consumer, Consumer] s =
          consumer_step env (exec env [Consumer, Consumer] s)"
      by (simp add: step_def)
    with ret [OF c] c t show ?thesis by simp
  qed
qed

lemma WriteFile_waits_for_reader:
  assumes "producer s = P_WriteFile berr" and "WriteFile_result env = None"
      and "\<not> reader_present s"
  shows "step env Producer s = s"
  using assms by (simp add: step_def producer_step_def)

lemma build_open_waits_for_reader:
  assumes "producer s = P_Open" and "\<not> reader_present s"
  shows "step env Producer s = s"
  using assms by (simp add: step_def producer_step_def)

lemmas run_simps = example_build_env_def failing_write_env_def example_schedule_def
  dropping_schedule_def reader_first_schedule_def producer_first_schedule_def
  initial_def example_pipe_def step_def producer_step_def consumer_step_def
  PipeArchiveStream_def forwarded_def PipeWrapper_Close_def deferred_Close_def
  example_Error_text_def done_flag_def in_hand_def


section \<open>The claims\<close>

subsection \<open>C1: a failing producer sets the done flag and writes the error text\<close>

text \<open>
  The claim as stated fails: when \<open>ioutil.WriteFile\<close> returns an error the producer
  only logs a warning and returns. In the run below the build fails before it opens
  the pipe and the write of the error text fails. The producer has returned the
  build error with the done flag set, nothing has been put into the pipe, and the
  bridge reader is inside its open of the pipe, where no step of either goroutine
  changes the state any more: it waits forever.
\<close>

theorem failed_write_leaves_reader_blocked_counterexample:
  "snd (Build_result failing_write_env) = Some (errors_New ''no such file'')
   \<and> producer (exec failing_write_env reader_first_schedule (initial (Some example_pipe))) =
       P_Returned (Some (errors_New ''no such file''))
   \<and> done_flag (exec failing_write_env reader_first_schedule (initial (Some example_pipe)))
   \<and> fifo (exec failing_write_env reader_first_schedule (initial (Some example_pipe))) = []
   \<and> err_written (exec failing_write_env reader_first_schedule (initial (Some example_pipe))) = []
   \<and> consumer (exec failing_write_env reader_first_schedule (initial (Some example_pipe))) =
       C_Opening
   \<and> step failing_write_env Consumer
        (exec failing_write_env reader_first_schedule (initial (Some example_pipe))) =
       exec failing_write_env reader_first_schedule (initial (Some example_pipe))
   \<and> step failing_write_env Producer
        (exec failing_write_env reader_first_schedule (initial (Some example_pipe))) =
       exec failing_write_env reader_first_schedule (initial (Some example_pipe))"
  by (simp add: run_simps)

text \<open>
  Claim C1, amended. Let the build of a request with an archive pipe (a non-nil pipe
  wrapper) fail with the error \<open>berr\<close>. In every interleaving of the two goroutines:
  the done flag is already set when the producer is about to write the error text;
  whenever the producer has returned, it has returned \<open>berr\<close> with the flag set; the
  write of the error text, when it does not fail and a reader has the pipe open,
  appends the text of \<open>berr\<close> to the content of the pipe and the producer returns;
  once the producer has returned after a write that did not fail, the text of \<open>berr\<close>
  has entered the pipe behind the build's bytes (what has been forwarded, what the
  reader holds and what is in the pipe are together the build's bytes followed by
  the text), and the bridge reader returns within four of its own steps: if it was
  inside the open or at the read, it returns \<open>nil\<close> within three steps without
  sending anything more. When the write fails, the producer logs a warning and
  returns, and nothing else changes.
\<close>

theorem producer_failure_wakes_reader:
  assumes "snd (Build_result env) = Some berr"
  shows "(\<forall>sch e. producer (exec env sch (initial (Some pw))) = P_WriteFile e \<longrightarrow>
            e = berr \<and> done_flag (exec env sch (initial (Some pw))))
       \<and> (\<forall>sch r. producer (exec env sch (initial (Some pw))) = P_Returned r \<longrightarrow>
            r = Some berr \<and> done_flag (exec env sch (initial (Some pw))))
       \<and> (\<forall>sch. producer (exec env sch (initial (Some pw))) = P_WriteFile berr
              \<and> WriteFile_result env = None
              \<and> reader_present (exec env sch (initial (Some pw))) \<longrightarrow>
            producer (exec env (sch @ [Producer]) (initial (Some pw))) = P_Returned (Some berr)
            \<and> fifo (exec env (sch @ [Producer]) (initial (Some pw))) =
                fifo (exec env sch (initial (Some pw))) @ Error_text env berr)
       \<and> (\<forall>sch. producer (exec env sch (initial (Some pw))) = P_Returned (Some berr)
              \<and> WriteFile_result env = None \<longrightarrow>
            err_written (exec env sch (initial (Some pw))) = Error_text env berr
            \<and> forwarded (exec env sch (initial (Some pw)))
                @ in_hand (exec env sch (initial (Some pw)))
                @ fifo (exec env sch (initial (Some pw))) =
                written (exec env sch (initial (Some pw))) @ Error_text env berr
            \<and> consumer_returned
                (exec env (sch @ [Consumer, Consumer, Consumer, Consumer]) (initial (Some pw)))
            \<and> (consumer (exec env sch (initial (Some pw))) = C_Opening
                 \<or> consumer (exec env sch (initial (Some pw))) = C_Read \<longrightarrow>
                 consumer (exec env (sch @ [Consumer, Consumer, Consumer]) (initial (Some pw))) =
                   C_Returned None
                 \<and> sent (exec env (sch @ [Consumer, Consumer, Consumer]) (initial (Some pw))) =
                     sent (exec env sch (initial (Some pw)))))
       \<and> (\<forall>sch perr. producer (exec env sch (initial (Some pw))) = P_WriteFile berr
              \<and> WriteFile_result env = Some perr \<longrightarrow>
            exec env (sch @ [Producer]) (initial (Some pw)) =
              (exec env sch (initial (Some pw)))
                \<lparr>events := events (exec env sch (initial (Some pw)))
                     @ [Ev_Warnf ''Write error [%v] in to pipe file failed: %v''
                          [ArgError (Some berr), ArgError (Some perr)]],
                  producer := P_Returned (Some berr)\<rparr>)"
proof -
  have inv: "pipeline_inv env (exec env sch (initial (Some pw)))" for sch
    by (rule reachable_inv)
  have pwn: "pipeWrapper (exec env sch (initial (Some pw))) \<noteq> None" for sch
    using pipeWrapper_None_exec [of env sch "initial (Some pw)"] by (simp add: initial_def)
  have c1: "e = berr \<and> done_flag (exec env sch (initial (Some pw)))"
    if "producer (exec env sch (initial (Some pw))) = P_WriteFile e" for sch e
    using inv [of sch] that assms by (simp add: pipeline_inv_def producer_inv_def)
  have c2: "r = Some berr \<and> done_flag (exec env sch (initial (Some pw)))"
    if "producer (exec env sch (initial (Some pw))) = P_Returned r" for sch r
    using inv [of sch] that assms pwn [of sch]
    by (auto simp: pipeline_inv_def producer_inv_def)
  have c3: "producer (exec env (sch @ [Producer]) (initial (Some pw))) = P_Returned (Some berr)
      \<and> fifo (exec env (sch @ [Producer]) (initial (Some pw))) =
          fifo (exec env sch (initial (Some pw))) @ Error_text env berr"
    if "producer (exec env sch (initial (Some pw))) = P_WriteFile berr
        \<and> WriteFile_result env = None \<and> reader_present (exec env sch (initial (Some pw)))"
    for sch
    using that by (simp add: exec_append step_def producer_step_def)
  have c4: "err_written (exec env sch (initial (Some pw))) = Error_text env berr
      \<and> forwarded (exec env sch (initial (Some pw)))
          @ in_hand (exec env sch (initial (Some pw)))
          @ fifo (exec env sch (initial (Some pw))) =
          written (exec env sch (initial (Some pw))) @ Error_text env berr
      \<and> consumer_returned
          (exec env (sch @ [Consumer, Consumer, Consumer, Consumer]) (initial (Some pw)))
      \<and> (consumer (exec env sch (initial (Some pw))) = C_Opening
           \<or> consumer (exec env sch (initial (Some pw))) = C_Read \<longrightarrow>
           consumer (exec env (sch @ [Consumer, Consumer, Consumer]) (initial (Some pw))) =
             C_Returned None
           \<and> sent (exec env (sch @ [Consumer, Consumer, Consumer]) (initial (Some pw))) =
               sent (exec env sch (initial (Some pw))))"
    if h: "producer (exec env sch (initial (Some pw))) = P_Returned (Some berr)
        \<and> WriteFile_result env = None"
    for sch
  proof -
    define s where "s = exec env sch (initial (Some pw))"
    from inv [of sch] have pi: "producer_inv env s" and ci: "content_inv env s"
      by (simp_all add: pipeline_inv_def s_def)
    from h have pr: "producer s = P_Returned (Some berr)" and ok: "WriteFile_result env = None"
      by (simp_all add: s_def)
    from pwn [of sch] have pn: "pipeWrapper s \<noteq> None" by (simp add: s_def)
    from pi pr ok pn have ew: "err_written s = Error_text env berr"
      and ws: "writer_seen s" and wo: "\<not> writer_open s" and d: "done_flag s"
      by (simp_all add: producer_inv_def)
    from ci ew have cons: "forwarded s @ in_hand s @ fifo s = written s @ Error_text env berr"
      by (simp add: content_inv_def)
    from consumer_wakes [OF ws wo d]
    have t: "consumer_returned (exec env [Consumer, Consumer, Consumer, Consumer] s)" .
    have o: "consumer s = C_Opening \<or> consumer s = C_Read \<longrightarrow>
        consumer (exec env [Consumer, Consumer, Consumer] s) = C_Returned None
        \<and> sent (exec env [Consumer, Consumer, Consumer] s) = sent s"
      using open_read_check [of s env, OF _ ws wo d] by blast
    from ew cons t o show ?thesis
      unfolding exec_append s_def [symmetric] by blast
  qed
  have c5: "exec env (sch @ [Producer]) (initial (Some pw)) =
        (exec env sch (initial (Some pw)))
          \<lparr>events := events (exec env sch (initial (Some pw)))
               @ [Ev_Warnf ''Write error [%v] in to pipe file failed: %v''
                    [ArgError (Some berr), ArgError (Some perr)]],
            producer := P_Returned (Some berr)\<rparr>"
    if "producer (exec env sch (initial (Some pw))) = P_WriteFile berr
        \<and> WriteFile_result env = Some perr"
    for sch perr
    using that by (simp add: exec_append step_def producer_step_def)
  from c1 c2 c3 c4 c5 show ?thesis by blast
qed

theorem producer_failure_wakes_reader_witness:
  "snd (Build_result example_build_env) = Some (errors_New ''disk full'')
   \<and> WriteFile_result example_build_env = None
   \<and> producer (exec example_build_env (take 11 example_schedule) (initial (Some example_pipe))) =
       P_WriteFile (errors_New ''disk full'')
   \<and> reader_present
       (exec example_build_env (take 11 example_schedule) (initial (Some example_pipe)))
   \<and> done_flag (exec example_build_env (take 11 example_schedule) (initial (Some example_pipe)))
   \<and> fifo (exec example_build_env (take 11 example_schedule @ [Producer])
        (initial (Some example_pipe))) = ''disk full''
   \<and> producer (exec example_build_env example_schedule (initial (Some example_pipe))) =
       P_Returned (Some (errors_New ''disk full''))
   \<and> consumer (exec example_build_env example_schedule (initial (Some example_pipe))) = C_Read
   \<and> done_flag (exec example_build_env example_schedule (initial (Some example_pipe)))
   \<and> err_written (exec example_build_env example_schedule (initial (Some example_pipe))) =
       ''disk full''
   \<and> consumer (exec example_build_env (example_schedule @ [Consumer, Consumer, Consumer])
        (initial (Some example_pipe))) = C_Returned None
   \<and> sent (exec example_build_env (example_schedule @ [Consumer, Consumer, Consumer])
        (initial (Some example_pipe))) = [\<lparr>Data = ''abc'', ImageID = []\<rparr>]
   \<and> snd (Build_result failing_write_env) = Some (errors_New ''no such file'')
   \<and> WriteFile_result failing_write_env = Some (errors_New ''permission denied'')
   \<and> producer (exec failing_write_env (take 4 reader_first_schedule)
        (initial (Some example_pipe))) = P_WriteFile (errors_New ''no such file'')
   \<and> fifo (exec failing_write_env (take 4 reader_first_schedule @ [Producer])
        (initial (Some example_pipe))) = []"
proof -
  let ?e = "errors_New ''disk full''"
  let ?s10 = "exec example_build_env (take 11 example_schedule) (initial (Some example_pipe))"
  let ?s = "exec example_build_env example_schedule (initial (Some example_pipe))"
  have h1: "snd (Build_result example_build_env) = Some ?e"
    by (simp add: example_build_env_def)
  have h2: "WriteFile_result example_build_env = None"
    by (simp add: example_build_env_def)
  have h3: "producer ?s10 = P_WriteFile ?e" by (simp add: run_simps)
  have h4: "reader_present ?s10" by (simp add: run_simps)
  have h5: "fifo ?s10 = []" by (simp add: run_simps)
  have h6: "producer ?s = P_Returned (Some ?e)" by (simp add: run_simps)
  have h7: "consumer ?s = C_Read" by (simp add: run_simps)
  have h8: "sent ?s = [\<lparr>Data = ''abc'', ImageID = []\<rparr>]" by (simp add: run_simps)
  have t: "Error_text example_build_env ?e = ''disk full''"
    by (simp add: example_build_env_def example_Error_text_def)
  note T = producer_failure_wakes_reader [of example_build_env ?e example_pipe, OF h1]
  note T1 = T [THEN conjunct1, rule_format]
  note T2 = T [THEN conjunct2, THEN conjunct1, rule_format]
  note T3 = T [THEN conjunct2, THEN conjunct2, THEN conjunct1, rule_format]
  note T4 = T [THEN conjunct2, THEN conjunct2, THEN conjunct2, THEN conjunct1, rule_format]
  from T1 [OF h3] have a: "done_flag ?s10" by (rule conjunct2)
  from T3 [of "take 11 example_schedule", OF conjI [OF h3 conjI [OF h2 h4]]]
  have "fifo (exec example_build_env (take 11 example_schedule @ [Producer])
        (initial (Some example_pipe))) = fifo ?s10 @ Error_text example_build_env ?e"
    by (rule conjunct2)
  with h5 t have b: "fifo (exec example_build_env (take 11 example_schedule @ [Producer])
        (initial (Some example_pipe))) = ''disk full''"
    by simp
  from T2 [OF h6] have c: "done_flag ?s" by (rule conjunct2)
  note R = T4 [of example_schedule, OF conjI [OF h6 h2]]
  from R have "err_written ?s = Error_text example_build_env ?e" by (rule conjunct1)
  with t have d: "err_written ?s = ''disk full''" by simp
  from R [THEN conjunct2, THEN conjunct2, THEN conjunct2, rule_format, OF disjI2 [OF h7]]
  have e: "consumer (exec example_build_env (example_schedule @ [Consumer, Consumer, Consumer])
        (initial (Some example_pipe))) = C_Returned None"
    and e': "sent (exec example_build_env (example_schedule @ [Consumer, Consumer, Consumer])
        (initial (Some example_pipe))) = sent ?s"
    by simp_all
  from e' h8 have f: "sent (exec example_build_env (example_schedule @ [Consumer, Consumer, Consumer])
        (initial (Some example_pipe))) = [\<lparr>Data = ''abc'', ImageID = []\<rparr>]"
    by simp
  let ?e' = "errors_New ''no such file''"
  let ?p' = "errors_New ''permission denied''"
  let ?u = "exec failing_write_env (take 4 reader_first_schedule) (initial (Some example_pipe))"
  have g1: "snd (Build_result failing_write_env) = Some ?e'"
    by (simp add: failing_write_env_def)
  have g2: "WriteFile_result failing_write_env = Some ?p'"
    by (simp add: failing_write_env_def)
  have g3: "producer ?u = P_WriteFile ?e'" by (simp add: run_simps)
  have g4: "fifo ?u = []" by (simp add: run_simps)
  note U = producer_failure_wakes_reader [of failing_write_env ?e' example_pipe, OF g1]
  note U5 = U [THEN conjunct2, THEN conjunct2, THEN conjunct2, THEN conjunct2, rule_format]
  from U5 [of "take 4 reader_first_schedule", OF conjI [OF g3 g2]]
  have "fifo (exec failing_write_env (take 4 reader_first_schedule @ [Producer])
        (initial (Some example_pipe))) = fifo ?u"
    by simp
  with g4 have g: "fifo (exec failing_write_env (take 4 reader_first_schedule @ [Producer])
        (initial (Some example_pipe))) = []"
    by simp
  from h1 h2 h3 h4 a b h6 h7 c d e f g1 g2 g3 g show ?thesis
    by (intro conjI)
qed

subsection \<open>C2: what the bridge reader has forwarded\<close>




subsection \<open>C3: cancellation by the client\<close>

text \<open>
  The claim as stated fails: when the stream's context is done, \<open>Build\<close> returns
  \<open>nil\<close>, not an error.
\<close>

theorem cancellation_returns_error_counterexample:
  "fst (Build_select (\<lambda>r. None) None ''sha256:0f3a'' (Some context_Canceled)
          stream_Context_Done) = None"
  by (simp add: Build_select_def)


text \<open>
  Claim C3, amended. When the stream's context is done, \<open>Build\<close> returns \<open>nil\<close> at
  once, whatever the build task is doing: it does not receive from \<open>errChan\<close>, it
  sends nothing to the client, and apart from the deferred teardown of \<open>Build\<close> its
  only effect is one warning, logged exactly when the cancellation cause is neither
  \<open>nil\<close> nor \<open>context.Canceled\<close>. Nothing is done to the build task.
\<close>

theorem cancellation_returns_nil:
  "fst (Build_select send cerr iid ctxErr stream_Context_Done) = None
   \<and> snd (Build_select send cerr iid ctxErr stream_Context_Done) =
       (if ctxErr = None \<or> ctxErr = Some context_Canceled then []
        else [Ev_Warnf ''Stream closed with: %v'' [ArgError ctxErr]])
       @ deferred_teardown cerr
   \<and> Ev_close_errChan \<notin> set (snd (Build_select send cerr iid ctxErr stream_Context_Done))
   \<and> (\<forall>r. Ev_Send r \<notin> set (snd (Build_select send cerr iid ctxErr stream_Context_Done)))
   \<and> (ctxErr = Some context_Canceled \<longrightarrow>
        (\<forall>f as. Ev_Warnf f as \<in> set (snd (Build_select send cerr iid ctxErr
                                            stream_Context_Done)) \<longrightarrow>
           f = ''defer builder clean build resources failed: %v''))"
proof -
  have e: "Build_select send cerr iid ctxErr stream_Context_Done =
      (None,
       (if ctxErr = None \<or> ctxErr = Some context_Canceled then []
        else [Ev_Warnf ''Stream closed with: %v'' [ArgError ctxErr]])
       @ deferred_teardown cerr)"
    by (simp add: Build_select_def)
  have t: "Ev_close_errChan \<notin> set (deferred_teardown cerr)"
    "\<And>r. Ev_Send r \<notin> set (deferred_teardown cerr)"
    "\<And>f as. Ev_Warnf f as \<in> set (deferred_teardown cerr) \<Longrightarrow>
       f = ''defer builder clean build resources failed: %v''"
    by (auto simp: deferred_teardown_def split: option.splits)
  show ?thesis
    unfolding e using t by auto
qed

theorem cancellation_returns_nil_witness:
  "Build_select (\<lambda>r. None) None ''sha256:0f3a'' (Some context_DeadlineExceeded)
     stream_Context_Done =
     (None,
      [Ev_Warnf ''Stream closed with: %v'' [ArgError (Some context_DeadlineExceeded)],
       Ev_CleanResources, Ev_deleteBuilder, Ev_deleteStatus, Ev_wg_Done])
   \<and> Build_select (\<lambda>r. None) None ''sha256:0f3a'' (Some context_Canceled)
       stream_Context_Done =
     (None, [Ev_CleanResources, Ev_deleteBuilder, Ev_deleteStatus, Ev_wg_Done])"
proof -
  note A = cancellation_returns_nil
    [of "\<lambda>r. None" None "''sha256:0f3a''" "Some context_DeadlineExceeded"]
  note B = cancellation_returns_nil
    [of "\<lambda>r. None" None "''sha256:0f3a''" "Some context_Canceled"]
  have a: "Build_select (\<lambda>r. None) None ''sha256:0f3a'' (Some context_DeadlineExceeded)
     stream_Context_Done =
     (None,
      [Ev_Warnf ''Stream closed with: %v'' [ArgError (Some context_DeadlineExceeded)],
       Ev_CleanResources, Ev_deleteBuilder, Ev_deleteStatus, Ev_wg_Done])"
    using A [THEN conjunct1] A [THEN conjunct2, THEN conjunct1]
    by (simp add: prod_eq_iff deferred_teardown_def)
  have b: "Build_select (\<lambda>r. None) None ''sha256:0f3a'' (Some context_Canceled)
       stream_Context_Done =
     (None, [Ev_CleanResources, Ev_deleteBuilder, Ev_deleteStatus, Ev_wg_Done])"
    using B [THEN conjunct1] B [THEN conjunct2, THEN conjunct1]
    by (simp add: prod_eq_iff deferred_teardown_def)
  show ?thesis
    using a b by simp
qed

subsection \<open>C4: a parse failure at the docker-reference stage is fatal\<close>

text \<open>
  Claim C4. For a non-empty name that the local store does not know and that is not of
  a transport-qualified form, a failure of the docker-reference parser makes
  \<open>ResolveName\<close> return that parse error (wrapped with the name), and the registry
  configuration is never consulted: the registry-search stage is not attempted.
\<close>

theorem docker_reference_parse_failure_is_fatal:
  assumes "name \<noteq> []"
      and "fst (tryResolveNameInStore ext st name) = []"
      and "fst (fst (tryResolveNameWithTransport ext name)) = []
           \<or> snd (fst (tryResolveNameWithTransport ext name)) = []"
      and "reference_ParseNormalizedNamed ext name = Inl err"
  shows "fst (ResolveName ext st name) =
           Inl (errors_Wrapf err ''error parsing image name %q'' [ArgString name])
         \<and> Call_UnqualifiedSearchRegistries \<notin> set (snd (ResolveName ext st name))
         \<and> (\<forall>r. Call_FindRegistry r \<notin> set (snd (ResolveName ext st name)))"
proof -
  obtain i2 t2 where s2: "tryResolveNameInStore ext st name = (i2, t2)"
    by (cases "tryResolveNameInStore ext st name")
  obtain d3 r3 t3 where s3: "tryResolveNameWithTransport ext name = ((d3, r3), t3)"
    by (cases "tryResolveNameWithTransport ext name") auto
  have s4: "tryResolveNameWithDockerReference ext name =
      (Inl (errors_Wrapf err ''error parsing image name %q'' [ArgString name]),
       [Call_ParseNormalizedNamed name])"
    using assms(4) by (simp add: tryResolveNameWithDockerReference_def)
  from assms(2) s2 have i2: "i2 = []" by simp
  from assms(3) s3 have d3: "d3 = [] \<or> r3 = []" by simp
  have res: "ResolveName ext st name =
      (Inl (errors_Wrapf err ''error parsing image name %q'' [ArgString name]),
       t2 @ t3 @ [Call_ParseNormalizedNamed name])"
    using assms(1) s2 s3 s4 i2 d3 by (auto simp: ResolveName_def)
  have n2: "Call_UnqualifiedSearchRegistries \<notin> set t2" "\<And>r. Call_FindRegistry r \<notin> set t2"
    using stage_events_no_registry(1,2) [where ext = ext and st = st and name = name] s2 by auto
  have n3: "Call_UnqualifiedSearchRegistries \<notin> set t3" "\<And>r. Call_FindRegistry r \<notin> set t3"
    using stage_events_no_registry(3,4) [where ext = ext and name = name] s3 by auto
  show ?thesis
    using res n2 n3 by simp
qed


theorem docker_reference_parse_failure_is_fatal_witness:
  "''BusyBox'' \<noteq> []
   \<and> fst (tryResolveNameInStore example_ext [] ''BusyBox'') = []
   \<and> reference_ParseNormalizedNamed example_ext ''BusyBox'' =
       Inl (errors_New ''invalid reference format'')
   \<and> fst (ResolveName example_ext [] ''BusyBox'') =
       Inl (errors_Wrapf (errors_New ''invalid reference format'')
              ''error parsing image name %q'' [ArgString ''BusyBox''])
   \<and> Call_UnqualifiedSearchRegistries \<notin> set (snd (ResolveName example_ext [] ''BusyBox''))"
proof -
  have h1: "''BusyBox'' \<noteq> []" by simp
  have h2: "fst (tryResolveNameInStore example_ext [] ''BusyBox'') = []"
    by (simp add: tryResolveNameInStore_def example_ext_def)
  have h3: "fst (fst (tryResolveNameWithTransport example_ext ''BusyBox'')) = []
      \<or> snd (fst (tryResolveNameWithTransport example_ext ''BusyBox'')) = []"
    by (simp add: tryResolveNameWithTransport_def strings_SplitN2_def)
  have h4: "reference_ParseNormalizedNamed example_ext ''BusyBox'' =
      Inl (errors_New ''invalid reference format'')"
    by (simp add: example_ext_def example_parse_def)
  show ?thesis
    using h1 h2 h4 docker_reference_parse_failure_is_fatal [OF h1 h2 h3 h4]
    by simp
qed

subsection \<open>C5: candidates are tried in order, the last pull error is kept\<close>

text \<open>
  Claim C5. With a non-empty transport the candidates are tried in their order, one
  source-name parse per candidate, and no candidate after the first success is
  touched. The result is the image of the first successful attempt; when there is
  none, every candidate has been tried and the result is one error that carries the
  whole candidate list and the error of the last failed pull (or \<open>nil\<close> when no pull
  was attempted). A candidate that is reached and already present in the local store
  is returned at once: the store is left as it was and no pull call is made for it.
  The outcome of an iteration is the one read off its calls: in particular, when the
  iteration comes to a pull and \<open>pullImage\<close> fails with \<open>err\<close>, the iteration ends
  as a failed pull with that \<open>err\<close>; and with the default signature policy
  available, \<open>pullImage\<close> fails exactly when the copy fails, with the copy's error.
\<close>

theorem pull_candidates_in_order:
  assumes "transport \<noteq> []"
  shows
    "fst (PullAndGetImageInfo_resolved ext opt st candidates transport) =
       (case firstFound (attemptOutcomes ext opt transport st candidates) of
          Some found \<Rightarrow> Inr found
        | None \<Rightarrow>
            Inl (errors_Errorf ''failed to get the image in %#v: %v''
                   [ArgStrings candidates,
                    ArgError
                      (if pullErrors (attemptOutcomes ext opt transport st candidates) = []
                       then None
                       else Some (last (pullErrors
                              (attemptOutcomes ext opt transport st candidates))))]))
     \<and> filter is_ParseImageName
          (snd (snd (PullAndGetImageInfo_resolved ext opt st candidates transport))) =
        map (\<lambda>c. Call_ParseImageName (sourceName ext opt transport c))
          (take (length (attemptOutcomes ext opt transport st candidates)) candidates)
     \<and> firstFound (butlast (attemptOutcomes ext opt transport st candidates)) = None
     \<and> (firstFound (attemptOutcomes ext opt transport st candidates) = None \<longrightarrow>
          length (attemptOutcomes ext opt transport st candidates) = length candidates)
     \<and> (\<forall>pre c rest ref img.
          candidates = pre @ c # rest
          \<and> fst (fst (pullLoop ext opt transport st None pre)) = None
          \<and> locallyPresent ext opt transport
               (fst (snd (pullLoop ext opt transport st None pre))) c = Some (ref, img)
          \<longrightarrow>
            fst (PullAndGetImageInfo_resolved ext opt st candidates transport) = Inr (ref, img)
            \<and> fst (snd (PullAndGetImageInfo_resolved ext opt st candidates transport)) =
                fst (snd (pullLoop ext opt transport st None pre))
            \<and> filter is_pull_event
                 (snd (snd (PullAndGetImageInfo_resolved ext opt st candidates transport))) =
               filter is_pull_event (snd (snd (pullLoop ext opt transport st None pre))))
     \<and> (\<forall>st' c.
          fst (tryCandidate ext opt transport st' c) = attemptOf ext opt transport st' c
          \<and> fst (snd (tryCandidate ext opt transport st' c)) =
              storeAfterAttempt ext opt transport st' c)
     \<and> (\<forall>st' c po err.
          pullRequest ext opt transport st' c = Some po
          \<and> fst (pullImage ext st' po) = Inl err \<longrightarrow>
            fst (tryCandidate ext opt transport st' c) = PullFailed err)
     \<and> (\<forall>st' po.
          signature_DefaultPolicy ext = None \<and> signature_NewPolicyContext ext = None \<longrightarrow>
            fst (pullImage ext st' po) =
              (case fst (copy_Image ext st' (dstRef po) (srcRef po)) of
                 Some err \<Rightarrow> Inl err
               | None \<Rightarrow> Inr (dstRef po)))"
proof -
  obtain r e st' t where pl: "pullLoop ext opt transport st None candidates = ((r, e), st', t)"
    by (cases "pullLoop ext opt transport st None candidates") auto
  have r: "r = firstFound (attemptOutcomes ext opt transport st candidates)"
    using pullLoop_found [of ext opt transport st None candidates] pl by simp
  have e: "e = (if pullErrors (attemptOutcomes ext opt transport st candidates) = [] then None
                else Some (last (pullErrors (attemptOutcomes ext opt transport st candidates))))"
    using pullLoop_errPull [of ext opt transport st None candidates] pl by simp
  have t: "filter is_ParseImageName t =
      map (\<lambda>c. Call_ParseImageName (sourceName ext opt transport c))
        (take (length (attemptOutcomes ext opt transport st candidates)) candidates)"
    using pullLoop_parse_calls [of ext opt transport st None candidates] pl by simp
  have res: "PullAndGetImageInfo_resolved ext opt st candidates transport =
      (case r of
         Some found \<Rightarrow> (Inr found, st', t)
       | None \<Rightarrow>
           (Inl (errors_Errorf ''failed to get the image in %#v: %v''
                   [ArgStrings candidates, ArgError e]), st', t))"
    using assms pl by (simp add: PullAndGetImageInfo_resolved_def split: option.splits)
  have p1: "fst (PullAndGetImageInfo_resolved ext opt st candidates transport) =
       (case firstFound (attemptOutcomes ext opt transport st candidates) of
          Some found \<Rightarrow> Inr found
        | None \<Rightarrow>
            Inl (errors_Errorf ''failed to get the image in %#v: %v''
                   [ArgStrings candidates,
                    ArgError
                      (if pullErrors (attemptOutcomes ext opt transport st candidates) = []
                       then None
                       else Some (last (pullErrors
                              (attemptOutcomes ext opt transport st candidates))))]))"
    unfolding res using r e by (simp split: option.splits)
  have p2: "filter is_ParseImageName
          (snd (snd (PullAndGetImageInfo_resolved ext opt st candidates transport))) =
        map (\<lambda>c. Call_ParseImageName (sourceName ext opt transport c))
          (take (length (attemptOutcomes ext opt transport st candidates)) candidates)"
    unfolding res using t by (simp split: option.splits)
  have p5: "fst (PullAndGetImageInfo_resolved ext opt st candidates transport) = Inr (ref, img)
            \<and> fst (snd (PullAndGetImageInfo_resolved ext opt st candidates transport)) =
                fst (snd (pullLoop ext opt transport st None pre))
            \<and> filter is_pull_event
                 (snd (snd (PullAndGetImageInfo_resolved ext opt st candidates transport))) =
               filter is_pull_event (snd (snd (pullLoop ext opt transport st None pre)))"
    if c: "candidates = pre @ c # rest"
      and f: "fst (fst (pullLoop ext opt transport st None pre)) = None"
      and l: "locallyPresent ext opt transport
               (fst (snd (pullLoop ext opt transport st None pre))) c = Some (ref, img)"
    for pre c rest ref img
  proof -
    obtain e1 st1 t1 where pp: "pullLoop ext opt transport st None pre = ((None, e1), st1, t1)"
      using f by (cases "pullLoop ext opt transport st None pre") auto
    from l pp obtain tc where tc: "tryCandidate ext opt transport st1 c = (Found ref img, st1, tc)"
      and np: "filter is_pull_event tc = []"
      using locallyPresent_tryCandidate [of ext opt transport st1 c ref img] by auto
    have "pullLoop ext opt transport st None candidates = ((Some (ref, img), e1), st1, t1 @ tc)"
      unfolding c using pullLoop_append [OF f, of "c # rest"] pp tc by simp
    with pl have "r = Some (ref, img)" "st' = st1" "t = t1 @ tc" by simp_all
    then show ?thesis
      unfolding res using pp np by simp
  qed
  have p6: "fst (tryCandidate ext opt transport st' c) = attemptOf ext opt transport st' c
      \<and> fst (snd (tryCandidate ext opt transport st' c)) =
          storeAfterAttempt ext opt transport st' c" for st' c
    by (rule tryCandidate_attemptOf)
  have lp: "locallyPresent ext opt transport st' c = None"
    if "pullRequest ext opt transport st' c = Some po" for st' c po
  proof -
    from that obtain sref where
      a: "alltransports_ParseImageName ext (sourceName ext opt transport c) = Inr sref"
      by (auto simp: pullRequest_def split: sum.splits)
    from that a obtain destImage where
      b: "(if transport = DockerArchiveTransport \<or> transport = OCIArchiveTransport
           then Inr (ToImage opt) else getLocalImageNameFromRef (Some sref)) = Inr destImage"
      by (simp add: pullRequest_def split: sum.splits)
    from that a b obtain destRef where
      c: "ParseStoreReference ext st' destImage = Inr destRef"
      by (simp add: pullRequest_def split: sum.splits)
    from that a b c obtain e where "GetStoreImage ext st' destRef = Inl e"
      by (simp add: pullRequest_def split: sum.splits)
    with a b c show ?thesis
      by (simp add: locallyPresent_def)
  qed
  have p7: "fst (tryCandidate ext opt transport st' c) = PullFailed err"
    if "pullRequest ext opt transport st' c = Some po" and "fst (pullImage ext st' po) = Inl err"
    for st' c po err
    using that lp [OF that(1)] p6 [of st' c] by (simp add: attemptOf_def)
  have p8: "fst (pullImage ext st' po) =
      (case fst (copy_Image ext st' (dstRef po) (srcRef po)) of
         Some err \<Rightarrow> Inl err
       | None \<Rightarrow> Inr (dstRef po))"
    if "signature_DefaultPolicy ext = None" and "signature_NewPolicyContext ext = None"
    for st' po
    using pullImage_copy [OF that] by simp
  have first: "fst (PullAndGetImageInfo_resolved ext opt st candidates transport) =
       (case firstFound (attemptOutcomes ext opt transport st candidates) of
          Some found \<Rightarrow> Inr found
        | None \<Rightarrow>
            Inl (errors_Errorf ''failed to get the image in %#v: %v''
                   [ArgStrings candidates,
                    ArgError
                      (if pullErrors (attemptOutcomes ext opt transport st candidates) = []
                       then None
                       else Some (last (pullErrors
                              (attemptOutcomes ext opt transport st candidates))))]))
     \<and> filter is_ParseImageName
          (snd (snd (PullAndGetImageInfo_resolved ext opt st candidates transport))) =
        map (\<lambda>c. Call_ParseImageName (sourceName ext opt transport c))
          (take (length (attemptOutcomes ext opt transport st candidates)) candidates)
     \<and> firstFound (butlast (attemptOutcomes ext opt transport st candidates)) = None
     \<and> (firstFound (attemptOutcomes ext opt transport st candidates) = None \<longrightarrow>
          length (attemptOutcomes ext opt transport st candidates) = length candidates)"
    using p1 p2 attemptOutcomes_shape [of ext opt transport st candidates]
    by blast
  from first p5 p6 p7 p8 show ?thesis
    by (intro conjI allI impI) (blast | assumption)+
qed

theorem pull_candidates_in_order_witness:
  "''docker'' \<noteq> []
   \<and> fst (PullAndGetImageInfo_resolved example_ext example_opt []
             [''localhost/busybox'', ''docker.io/library/busybox''] ''docker'') =
       Inl (errors_Errorf ''failed to get the image in %#v: %v''
              [ArgStrings [''localhost/busybox'', ''docker.io/library/busybox''],
               ArgError (Some (errors_New ''manifest unknown''))])
   \<and> locallyPresent example_ext example_opt ''docker''
         [(''docker.io/library/busybox:latest'', \<lparr>ID = ''beae173ccac6'', Names = []\<rparr>)]
         ''docker.io/library/busybox'' =
       Some (store_reference ''docker.io/library/busybox:latest'',
             \<lparr>ID = ''beae173ccac6'', Names = []\<rparr>)
   \<and> fst (PullAndGetImageInfo_resolved example_ext example_opt
             [(''docker.io/library/busybox:latest'', \<lparr>ID = ''beae173ccac6'', Names = []\<rparr>)]
             [''localhost/busybox'', ''docker.io/library/busybox'', ''quay.io/busybox'']
             ''docker'') =
       Inr (store_reference ''docker.io/library/busybox:latest'',
            \<lparr>ID = ''beae173ccac6'', Names = []\<rparr>)
   \<and> pullRequest example_ext example_opt ''docker'' [] ''localhost/busybox'' =
       Some \<lparr>srcRef = docker_source ''localhost'' ''busybox'',
             dstRef = store_reference ''localhost/busybox:latest'',
             dstName = ''localhost/busybox:latest''\<rparr>
   \<and> fst (pullImage example_ext []
             \<lparr>srcRef = docker_source ''localhost'' ''busybox'',
              dstRef = store_reference ''localhost/busybox:latest'',
              dstName = ''localhost/busybox:latest''\<rparr>) =
       Inl (errors_New ''connection refused'')
   \<and> fst (tryCandidate example_ext example_opt ''docker'' [] ''localhost/busybox'') =
       PullFailed (errors_New ''connection refused'')"
proof -
  let ?st = "[(''docker.io/library/busybox:latest'', \<lparr>ID = ''beae173ccac6'', Names = []\<rparr>)]"
  let ?img = "\<lparr>ID = ''beae173ccac6'', Names = []\<rparr>"
  have h: "''docker'' \<noteq> []" by simp
  have t1: "tryCandidate example_ext example_opt ''docker'' st ''localhost/busybox'' =
      (PullFailed (errors_New ''connection refused''), st,
       [Call_ParseImageName ''docker://localhost/busybox'',
        Call_ParseStoreReference ''localhost/busybox:latest'',
        Call_GetStoreImage (store_reference ''localhost/busybox:latest''),
        Call_DefaultPolicy, Call_NewPolicyContext,
        Call_copy_Image (store_reference ''localhost/busybox:latest'')
          (docker_source ''localhost'' ''busybox''),
        Call_PolicyContext_Destroy])"
    if "map_of st ''localhost/busybox:latest'' = None" for st
    using that
    by (simp add: tryCandidate_def lookupOrPull_def pullImage_def example_ext_def
        getLocalImageNameFromRef_def docker_source_def store_reference_def Named_Name_def
        DockerTransport_def DockerArchiveTransport_def OCIArchiveTransport_def Let_def)
  have t2: "tryCandidate example_ext example_opt ''docker'' [] ''docker.io/library/busybox'' =
      (PullFailed (errors_New ''manifest unknown''), [],
       [Call_ParseImageName ''docker://docker.io/library/busybox'',
        Call_ParseStoreReference ''docker.io/library/busybox:latest'',
        Call_GetStoreImage (store_reference ''docker.io/library/busybox:latest''),
        Call_DefaultPolicy, Call_NewPolicyContext,
        Call_copy_Image (store_reference ''docker.io/library/busybox:latest'')
          (docker_source ''docker.io'' ''library/busybox''),
        Call_PolicyContext_Destroy])"
    by (simp add: tryCandidate_def lookupOrPull_def pullImage_def example_ext_def
        getLocalImageNameFromRef_def docker_source_def store_reference_def Named_Name_def
        DockerTransport_def DockerArchiveTransport_def OCIArchiveTransport_def Let_def)
  have o: "attemptOutcomes example_ext example_opt ''docker'' []
        [''localhost/busybox'', ''docker.io/library/busybox''] =
      [PullFailed (errors_New ''connection refused''), PullFailed (errors_New ''manifest unknown'')]"
    by (simp add: t1 t2)
  have a: "fst (PullAndGetImageInfo_resolved example_ext example_opt []
             [''localhost/busybox'', ''docker.io/library/busybox''] ''docker'') =
       Inl (errors_Errorf ''failed to get the image in %#v: %v''
              [ArgStrings [''localhost/busybox'', ''docker.io/library/busybox''],
               ArgError (Some (errors_New ''manifest unknown''))])"
    using pull_candidates_in_order [OF h, of example_ext example_opt "[]"
        "[''localhost/busybox'', ''docker.io/library/busybox'']", unfolded o]
    by simp
  have p: "pullLoop example_ext example_opt ''docker'' ?st None [''localhost/busybox''] =
      ((None, Some (errors_New ''connection refused'')), ?st,
       [Call_ParseImageName ''docker://localhost/busybox'',
        Call_ParseStoreReference ''localhost/busybox:latest'',
        Call_GetStoreImage (store_reference ''localhost/busybox:latest''),
        Call_DefaultPolicy, Call_NewPolicyContext,
        Call_copy_Image (store_reference ''localhost/busybox:latest'')
          (docker_source ''localhost'' ''busybox''),
        Call_PolicyContext_Destroy])"
    by (simp add: t1)
  have l: "locallyPresent example_ext example_opt ''docker'' ?st ''docker.io/library/busybox'' =
      Some (store_reference ''docker.io/library/busybox:latest'', ?img)"
    by (simp add: locallyPresent_def sourceName_def example_ext_def
        getLocalImageNameFromRef_def docker_source_def store_reference_def Named_Name_def
        DockerTransport_def DockerArchiveTransport_def OCIArchiveTransport_def)
  have prem: "[''localhost/busybox'', ''docker.io/library/busybox'', ''quay.io/busybox''] =
        [''localhost/busybox''] @ ''docker.io/library/busybox'' # [''quay.io/busybox'']
      \<and> fst (fst (pullLoop example_ext example_opt ''docker'' ?st None [''localhost/busybox''])) =
          None
      \<and> locallyPresent example_ext example_opt ''docker''
            (fst (snd (pullLoop example_ext example_opt ''docker'' ?st None
                         [''localhost/busybox''])))
            ''docker.io/library/busybox'' =
          Some (store_reference ''docker.io/library/busybox:latest'', ?img)"
    unfolding p using l by simp
  have b: "fst (PullAndGetImageInfo_resolved example_ext example_opt ?st
             [''localhost/busybox'', ''docker.io/library/busybox'', ''quay.io/busybox'']
             ''docker'') =
       Inr (store_reference ''docker.io/library/busybox:latest'', ?img)"
    using pull_candidates_in_order [OF h, of example_ext example_opt ?st
        "[''localhost/busybox'', ''docker.io/library/busybox'', ''quay.io/busybox'']",
        THEN conjunct2, THEN conjunct2, THEN conjunct2, THEN conjunct2, THEN conjunct1,
        rule_format, OF prem]
    by (rule conjunct1)
  let ?po = "\<lparr>srcRef = docker_source ''localhost'' ''busybox'',
              dstRef = store_reference ''localhost/busybox:latest'',
              dstName = ''localhost/busybox:latest''\<rparr>"
  have q: "pullRequest example_ext example_opt ''docker'' [] ''localhost/busybox'' = Some ?po"
    by (simp add: pullRequest_def sourceName_def example_ext_def
        getLocalImageNameFromRef_def docker_source_def store_reference_def Named_Name_def
        DockerTransport_def DockerArchiveTransport_def OCIArchiveTransport_def)
  have sp: "signature_DefaultPolicy example_ext = None \<and> signature_NewPolicyContext example_ext = None"
    by (simp add: example_ext_def)
  have cp: "fst (copy_Image example_ext [] (dstRef ?po) (srcRef ?po)) =
      Some (errors_New ''connection refused'')"
    by (simp add: example_ext_def docker_source_def)
  have pf: "fst (pullImage example_ext [] ?po) = Inl (errors_New ''connection refused'')"
    using pull_candidates_in_order [OF h, of example_ext example_opt "[]" "[]",
        THEN conjunct2, THEN conjunct2, THEN conjunct2, THEN conjunct2, THEN conjunct2,
        THEN conjunct2, THEN conjunct2, rule_format, OF sp, of "[]" ?po]
    by (simp only: cp option.case)
  have qp: "pullRequest example_ext example_opt ''docker'' [] ''localhost/busybox'' = Some ?po
      \<and> fst (pullImage example_ext [] ?po) = Inl (errors_New ''connection refused'')"
    using q pf by simp
  have c: "fst (tryCandidate example_ext example_opt ''docker'' [] ''localhost/busybox'') =
      PullFailed (errors_New ''connection refused'')"
    using pull_candidates_in_order [OF h, of example_ext example_opt "[]" "[]",
        THEN conjunct2, THEN conjunct2, THEN conjunct2, THEN conjunct2, THEN conjunct2,
        THEN conjunct2, THEN conjunct1, rule_format, OF qp] .
  show ?thesis
    using h a l b q pf c by simp
qed

subsection \<open>C6: the registry-search fallback\<close>

text \<open>
  Claim C6. The candidates of the registry-search fallback are, in this order, the one
  for \<open>localhost\<close> and then those for the configured search registries that are
  accepted, in their configured order; the transport is \<open>docker\<close>. No registry that
  the configuration marks blocked is accepted. (Also left out are a registry whose
  configuration lookup fails and the empty registry name.)
\<close>

theorem registries_localhost_first:
  "fst (tryResolveNameInRegistries ext name) =
     (map (candidateFor ext name)
        (''localhost''
         # filter (\<lambda>r. registryAccepted ext r \<and> r \<noteq> []) (configuredRegistries ext)),
      DockerTransport)
   \<and> (\<forall>r reg. FindRegistry ext r = Inr (Some reg) \<and> Blocked reg \<longrightarrow>
         \<not> registryAccepted ext r)"
  by (simp add: tryResolveNameInRegistries_def Let_def keepRegistries_filter buildCandidates_map
      configuredRegistries_def registryAccepted_def)

theorem registries_localhost_first_witness:
  "fst (tryResolveNameInRegistries example_ext ''busybox'') =
     ([''localhost/busybox'', ''docker.io/library/busybox'', ''quay.io/busybox''], ''docker'')
   \<and> FindRegistry example_ext ''blocked.example.com'' = Inr (Some \<lparr>Blocked = True\<rparr>)
   \<and> \<not> registryAccepted example_ext ''blocked.example.com''"
proof -
  have f: "FindRegistry example_ext ''blocked.example.com'' = Inr (Some \<lparr>Blocked = True\<rparr>)"
    by (simp add: example_ext_def)
  have k: "filter (\<lambda>r. registryAccepted example_ext r \<and> r \<noteq> [])
      (configuredRegistries example_ext) = [''docker.io'', ''quay.io'']"
    by (simp add: registryAccepted_def configuredRegistries_def example_ext_def)
  have c: "candidateFor example_ext ''busybox'' ''localhost'' = ''localhost/busybox''"
    "candidateFor example_ext ''busybox'' ''docker.io'' = ''docker.io/library/busybox''"
    "candidateFor example_ext ''busybox'' ''quay.io'' = ''quay.io/busybox''"
    by (simp_all add: candidateFor_def example_ext_def path_Join_def path_Clean_def
        path_elements_def clean_step_def)
  show ?thesis
    using registries_localhost_first [of example_ext "''busybox''"] f
    by (simp add: k c DockerTransport_def)
qed

subsection \<open>C7: transport-qualified names\<close>

text \<open>
  The claim as stated fails in two ways. A name whose remainder is empty after
  stripping is not resolved by the transport stage at all: \<open>docker-archive:\<close> goes on
  to the docker-reference stage and ends in a parse error. And for the two archive
  forms the remainder is trimmed of surrounding white space, not only cut off after
  the prefix.
\<close>

theorem transport_prefix_only_counterexample:
  "fst (ResolveName example_ext [] ''docker-archive:'') =
     Inl (errors_Wrapf (errors_New ''invalid reference format'')
            ''error parsing image name %q'' [ArgString ''docker-archive:''])
   \<and> fst (ResolveName example_ext [] ''oci-archive: /tmp/image.tar'') =
       Inr ([''/tmp/image.tar''], ''oci-archive'')"
proof -
  have t: "strings_TrimSpace [] = []" "strings_TrimSpace '' /tmp/image.tar'' = ''/tmp/image.tar''"
    by (simp_all add: strings_TrimSpace_def leading_space_def trailing_space_def
        space_encodings_def strings_HasPrefix_def)
  show ?thesis
    by (simp add: ResolveName_def tryResolveNameInStore_def tryResolveNameWithTransport_def
        tryResolveNameWithDockerReference_def strings_SplitN2_def example_ext_def
        example_parse_def t DockerTransport_def DockerArchiveTransport_def
        OCIArchiveTransport_def)
qed

text \<open>
  Claim C7, amended. Let the name be \<open>transport:rest\<close> with the transport one of
  \<open>docker\<close>, \<open>docker-archive\<close>, \<open>oci-archive\<close> (known to the transport table), and
  let the local store not know the name. The destination is \<open>rest\<close> without a
  leading \<open>//\<close> for \<open>docker\<close> and \<open>rest\<close> trimmed of surrounding white space for
  the archive forms. When the destination is non-empty, \<open>ResolveName\<close> returns
  exactly that destination as its one candidate, tagged with the transport. When the
  destination is empty, the transport stage yields no candidate and the resolution
  goes on with the docker-reference stage: the name is parsed as a normalized
  reference, and the result of \<open>ResolveName\<close> is that of the docker-reference stage
  followed, if that stage has no result, by the registry search.
\<close>

theorem transport_prefix_resolves:
  assumes "t = DockerTransport \<or> t = DockerArchiveTransport \<or> t = OCIArchiveTransport"
      and "transports_Get ext t = Some t"
      and "fst (tryResolveNameInStore ext st (t @ '':'' @ rest)) = []"
  shows "((if t = DockerTransport then strings_TrimPrefix rest ''//''
           else strings_TrimSpace rest) \<noteq> [] \<longrightarrow>
          fst (ResolveName ext st (t @ '':'' @ rest)) =
            Inr ([if t = DockerTransport then strings_TrimPrefix rest ''//''
                  else strings_TrimSpace rest], t))
       \<and> ((if t = DockerTransport then strings_TrimPrefix rest ''//''
            else strings_TrimSpace rest) = [] \<longrightarrow>
          fst (tryResolveNameWithTransport ext (t @ '':'' @ rest)) = ([], t)
          \<and> fst (ResolveName ext st (t @ '':'' @ rest)) =
              (case fst (tryResolveNameWithDockerReference ext (t @ '':'' @ rest)) of
                 Inl err \<Rightarrow> Inl err
               | Inr (dest, transport) \<Rightarrow>
                   if dest \<noteq> [] \<and> transport \<noteq> [] then Inr ([dest], transport)
                   else Inr (fst (tryResolveNameInRegistries ext (t @ '':'' @ rest))))
          \<and> Call_ParseNormalizedNamed (t @ '':'' @ rest)
              \<in> set (snd (ResolveName ext st (t @ '':'' @ rest))))"
proof -
  let ?name = "t @ '':'' @ rest"
  let ?dest = "if t = DockerTransport then strings_TrimPrefix rest ''//''
               else strings_TrimSpace rest"
  from assms(1) have nc: "CHR '':'' \<notin> set t"
    by (auto simp: DockerTransport_def DockerArchiveTransport_def OCIArchiveTransport_def)
  from assms(1) have ne: "t \<noteq> []"
    by (auto simp: DockerTransport_def DockerArchiveTransport_def OCIArchiveTransport_def)
  have s3: "fst (tryResolveNameWithTransport ext ?name) = (?dest, t)"
    using assms(1,2) SplitN2_colon [OF nc, of rest]
    by (auto simp: tryResolveNameWithTransport_def)
  obtain i2 t2 where s2: "tryResolveNameInStore ext st ?name = (i2, t2)"
    by (cases "tryResolveNameInStore ext st ?name")
  with assms(3) have i2: "i2 = []" by simp
  obtain t3 where s3': "tryResolveNameWithTransport ext ?name = ((?dest, t), t3)"
    using s3 by (cases "tryResolveNameWithTransport ext ?name") auto
  have a: "fst (ResolveName ext st ?name) = Inr ([?dest], t)" if "?dest \<noteq> []"
    using s2 i2 s3' that ne by (simp add: ResolveName_def)
  have b: "fst (tryResolveNameWithTransport ext ?name) = ([], t)
      \<and> fst (ResolveName ext st ?name) =
          (case fst (tryResolveNameWithDockerReference ext ?name) of
             Inl err \<Rightarrow> Inl err
           | Inr (dest, transport) \<Rightarrow>
               if dest \<noteq> [] \<and> transport \<noteq> [] then Inr ([dest], transport)
               else Inr (fst (tryResolveNameInRegistries ext ?name)))
      \<and> Call_ParseNormalizedNamed ?name \<in> set (snd (ResolveName ext st ?name))"
    if e: "?dest = []"
  proof -
    obtain r4 t4 where s4: "tryResolveNameWithDockerReference ext ?name = (r4, t4)"
      by (cases "tryResolveNameWithDockerReference ext ?name")
    have c4: "Call_ParseNormalizedNamed ?name \<in> set t4"
      using s4
      by (auto simp: tryResolveNameWithDockerReference_def Let_def
          split: sum.splits option.splits if_splits)
    have tr: "tryResolveNameWithTransport ext ?name = (([], t), t3)"
      using s3' e by simp
    obtain r5 t5 where s5: "tryResolveNameInRegistries ext ?name = (r5, t5)"
      by (cases "tryResolveNameInRegistries ext ?name")
    have "ResolveName ext st ?name =
        (case r4 of
           Inl err \<Rightarrow> (Inl err, t2 @ t3 @ t4)
         | Inr (dest, transport) \<Rightarrow>
             if dest \<noteq> [] \<and> transport \<noteq> [] then (Inr ([dest], transport), t2 @ t3 @ t4)
             else (Inr r5, t2 @ t3 @ t4 @ t5))"
      using s2 i2 tr s4 s5 ne
      by (simp add: ResolveName_def split: sum.splits prod.splits)
    with s3 e s4 s5 c4 show ?thesis
      by (auto split: sum.splits prod.splits)
  qed
  show ?thesis
    using a b by blast
qed

theorem transport_prefix_resolves_witness:
  "transports_Get example_ext DockerTransport = Some DockerTransport
   \<and> fst (tryResolveNameInStore example_ext []
            (DockerTransport @ '':'' @ ''//registry.example.com/library/x:1.0'')) = []
   \<and> strings_TrimPrefix ''//registry.example.com/library/x:1.0'' ''//'' \<noteq> []
   \<and> fst (ResolveName example_ext [] ''docker://registry.example.com/library/x:1.0'') =
       Inr ([''registry.example.com/library/x:1.0''], ''docker'')
   \<and> transports_Get example_ext DockerArchiveTransport = Some DockerArchiveTransport
   \<and> fst (tryResolveNameInStore example_ext [] (DockerArchiveTransport @ '':'' @ [])) = []
   \<and> strings_TrimSpace [] = []
   \<and> fst (tryResolveNameWithDockerReference example_ext ''docker-archive:'') =
       Inl (errors_Wrapf (errors_New ''invalid reference format'')
              ''error parsing image name %q'' [ArgString ''docker-archive:''])
   \<and> fst (ResolveName example_ext [] ''docker-archive:'') =
       Inl (errors_Wrapf (errors_New ''invalid reference format'')
              ''error parsing image name %q'' [ArgString ''docker-archive:''])"
proof -
  have h1: "DockerTransport = DockerTransport \<or> DockerTransport = DockerArchiveTransport
      \<or> DockerTransport = OCIArchiveTransport"
    by simp
  have h2: "transports_Get example_ext DockerTransport = Some DockerTransport"
    by (simp add: example_ext_def DockerTransport_def)
  have h3: "fst (tryResolveNameInStore example_ext []
      (DockerTransport @ '':'' @ ''//registry.example.com/library/x:1.0'')) = []"
    by (simp add: tryResolveNameInStore_def example_ext_def)
  have s: "strings_TrimPrefix ''//registry.example.com/library/x:1.0'' ''//'' =
      ''registry.example.com/library/x:1.0''"
    by (simp add: strings_TrimPrefix_def strings_HasPrefix_def)
  have a: "fst (ResolveName example_ext [] ''docker://registry.example.com/library/x:1.0'') =
       Inr ([''registry.example.com/library/x:1.0''], ''docker'')"
    using transport_prefix_resolves [OF h1 h2 h3, THEN conjunct1]
    by (simp add: s DockerTransport_def)
  have g1: "DockerArchiveTransport = DockerTransport
      \<or> DockerArchiveTransport = DockerArchiveTransport
      \<or> DockerArchiveTransport = OCIArchiveTransport"
    by simp
  have g2: "transports_Get example_ext DockerArchiveTransport = Some DockerArchiveTransport"
    by (simp add: example_ext_def DockerArchiveTransport_def)
  have g3: "fst (tryResolveNameInStore example_ext [] (DockerArchiveTransport @ '':'' @ [])) = []"
    by (simp add: tryResolveNameInStore_def example_ext_def)
  have ts: "strings_TrimSpace [] = []"
    by (simp add: strings_TrimSpace_def leading_space_def trailing_space_def
        space_encodings_def strings_HasPrefix_def)
  have d: "fst (tryResolveNameWithDockerReference example_ext ''docker-archive:'') =
       Inl (errors_Wrapf (errors_New ''invalid reference format'')
              ''error parsing image name %q'' [ArgString ''docker-archive:''])"
    by (simp add: tryResolveNameWithDockerReference_def example_ext_def example_parse_def)
  have b: "fst (ResolveName example_ext [] ''docker-archive:'') =
       Inl (errors_Wrapf (errors_New ''invalid reference format'')
              ''error parsing image name %q'' [ArgString ''docker-archive:''])"
    using transport_prefix_resolves [OF g1 g2 g3, THEN conjunct2] ts d
    by (simp add: DockerArchiveTransport_def DockerTransport_def)
  show ?thesis
    using h2 h3 s a g2 g3 ts d b by simp
qed

subsection \<open>C8: a hit in the local store ends the resolution\<close>

text \<open>
  Claim C8. For a non-empty name the store is asked for \<open>name:latest\<close> first and for
  the bare name only when that fails. When either lookup finds an image (whose id, as
  every id the store hands out, is not empty), \<open>ResolveName\<close> returns that id as its
  single candidate with the empty transport and no error, and the store lookups are
  the only collaborator calls it has made: no later stage runs.
\<close>

theorem local_store_hit_short_circuits:
  assumes "name \<noteq> []" and "ID img \<noteq> []"
  shows "(store_Image ext st (name @ '':'' @ DefaultTag) = Some img \<longrightarrow>
            ResolveName ext st name =
              (Inr ([ID img], []), [Call_store_Image (name @ '':'' @ DefaultTag)]))
       \<and> (store_Image ext st (name @ '':'' @ DefaultTag) = None
            \<and> store_Image ext st name = Some img \<longrightarrow>
            ResolveName ext st name =
              (Inr ([ID img], []),
               [Call_store_Image (name @ '':'' @ DefaultTag), Call_store_Image name]))"
  using assms by (simp add: ResolveName_def tryResolveNameInStore_def)


theorem local_store_hit_short_circuits_witness:
  "''busybox'' \<noteq> []
   \<and> store_Image example_ext example_store (''busybox'' @ '':'' @ DefaultTag) =
       Some \<lparr>ID = ''beae173ccac6'', Names = [''busybox:latest'']\<rparr>
   \<and> ResolveName example_ext example_store ''busybox'' =
       (Inr ([''beae173ccac6''], []), [Call_store_Image ''busybox:latest''])"
proof -
  have h1: "''busybox'' \<noteq> []" by simp
  have h2: "ID \<lparr>ID = ''beae173ccac6'', Names = [''busybox:latest'']\<rparr> \<noteq> []" by simp
  have h3: "store_Image example_ext example_store (''busybox'' @ '':'' @ DefaultTag) =
      Some \<lparr>ID = ''beae173ccac6'', Names = [''busybox:latest'']\<rparr>"
    by (simp add: example_ext_def example_store_def DefaultTag_def)
  show ?thesis
    using h1 h3
      local_store_hit_short_circuits [OF h1 h2, of example_ext example_store, THEN conjunct1]
    by (simp add: DefaultTag_def)
qed

subsection \<open>C9: the empty transport needs exactly one candidate\<close>

text \<open>
  Claim C9. With the empty transport, a candidate list that does not have exactly one
  element makes \<open>PullAndGetImageInfo\<close> return an error without any collaborator call
  and without touching the store. With exactly one candidate the result and the calls
  are those of \<open>FindImage\<close> for that candidate: no source name is parsed and nothing
  is pulled, and when the candidate is a valid reference the store is asked for it
  right after that check. In full: a candidate that is not a valid reference gives
  the wrapped parse error after that one call; a valid candidate that the store knows
  neither with the default tag nor as it stands gives the error
  \<open>image %q not found in local store\<close> after the two store queries; and a valid
  candidate for which the store has an image (with a non-empty ID) gives the store
  reference parsed from that ID together with the image \<open>GetStoreImage\<close> returns for
  it, or the wrapped error of whichever of these two calls fails.
\<close>

theorem empty_transport_needs_one_candidate:
  "(length candidates \<noteq> 1 \<longrightarrow>
      PullAndGetImageInfo_resolved ext opt st candidates [] =
        (Inl (errors_New ''transport is empty and multi or no image be found''), st, []))
   \<and> fst (PullAndGetImageInfo_resolved ext opt st [c] []) = fst (FindImage ext st c)
   \<and> fst (snd (PullAndGetImageInfo_resolved ext opt st [c] [])) = st
   \<and> snd (snd (PullAndGetImageInfo_resolved ext opt st [c] [])) = snd (FindImage ext st c)
   \<and> filter is_pull_event (snd (FindImage ext st c)) = []
   \<and> filter is_ParseImageName (snd (FindImage ext st c)) = []
   \<and> (reference_Parse ext c = None \<longrightarrow>
        take 2 (snd (FindImage ext st c)) =
          [Call_reference_Parse c, Call_store_Image (c @ '':'' @ DefaultTag)])
   \<and> (\<forall>err. reference_Parse ext c = Some err \<longrightarrow>
        PullAndGetImageInfo_resolved ext opt st [c] [] =
          (Inl (errors_Wrapf err ''parse image %q failed'' [ArgString c]), st,
           [Call_reference_Parse c]))
   \<and> (reference_Parse ext c = None \<and> storeLookup ext st c = None \<longrightarrow>
        PullAndGetImageInfo_resolved ext opt st [c] [] =
          (Inl (errors_Errorf ''image %q not found in local store'' [ArgString c]), st,
           [Call_reference_Parse c, Call_store_Image (c @ '':'' @ DefaultTag),
            Call_store_Image c]))
   \<and> (\<forall>img. reference_Parse ext c = None \<and> storeLookup ext st c = Some img
              \<and> ID img \<noteq> [] \<longrightarrow>
        PullAndGetImageInfo_resolved ext opt st [c] [] =
          (case ParseStoreReference ext st (ID img) of
             Inl err \<Rightarrow>
               (Inl (errors_Wrapf err ''error parsing reference to image %q''
                       [ArgString (ID img)]),
                st,
                Call_reference_Parse c # storeLookupCalls ext st c
                @ [Call_ParseStoreReference (ID img)])
           | Inr ref \<Rightarrow>
               (case GetStoreImage ext st ref of
                  Inl err \<Rightarrow>
                    (Inl (errors_Wrapf err ''failed to parse image %q in local store''
                            [ArgString (ID img)]),
                     st,
                     Call_reference_Parse c # storeLookupCalls ext st c
                     @ [Call_ParseStoreReference (ID img), Call_GetStoreImage ref])
                | Inr img' \<Rightarrow>
                    (Inr (ref, img'), st,
                     Call_reference_Parse c # storeLookupCalls ext st c
                     @ [Call_ParseStoreReference (ID img), Call_GetStoreImage ref]))))"
proof -
  have a: "length candidates \<noteq> 1 \<longrightarrow>
      PullAndGetImageInfo_resolved ext opt st candidates [] =
        (Inl (errors_New ''transport is empty and multi or no image be found''), st, [])"
    by (simp add: PullAndGetImageInfo_resolved_def)
  have b: "PullAndGetImageInfo_resolved ext opt st [c] [] =
      (fst (FindImage ext st c), st, snd (FindImage ext st c))"
    by (simp add: PullAndGetImageInfo_resolved_def split: prod.splits sum.splits)
  have s: "filter is_pull_event (snd (tryResolveNameInStore ext st c)) = []"
      "filter is_ParseImageName (snd (tryResolveNameInStore ext st c)) = []"
      "take 1 (snd (tryResolveNameInStore ext st c)) = [Call_store_Image (c @ '':'' @ DefaultTag)]"
    by (simp_all add: tryResolveNameInStore_def is_pull_event_def is_ParseImageName_def
        split: option.splits)
  obtain ln t where ts: "tryResolveNameInStore ext st c = (ln, t)"
    by (cases "tryResolveNameInStore ext st c")
  have d: "filter is_pull_event (snd (FindImage ext st c)) = []"
    using s(1) ts
    by (simp add: FindImage_def is_pull_event_def split: option.splits sum.splits)
  have e: "filter is_ParseImageName (snd (FindImage ext st c)) = []"
    using s(2) ts
    by (simp add: FindImage_def is_ParseImageName_def split: option.splits sum.splits)
  have f: "reference_Parse ext c = None \<longrightarrow>
        take 2 (snd (FindImage ext st c)) =
          [Call_reference_Parse c, Call_store_Image (c @ '':'' @ DefaultTag)]"
  proof
    assume n: "reference_Parse ext c = None"
    from s(3) ts obtain t' where "t = Call_store_Image (c @ '':'' @ DefaultTag) # t'"
      by (cases t) auto
    with n ts show "take 2 (snd (FindImage ext st c)) =
          [Call_reference_Parse c, Call_store_Image (c @ '':'' @ DefaultTag)]"
      by (simp add: FindImage_def split: sum.splits)
  qed
  note F = FindImage_cases [of ext c st]
  have g: "PullAndGetImageInfo_resolved ext opt st [c] [] =
          (Inl (errors_Wrapf err ''parse image %q failed'' [ArgString c]), st,
           [Call_reference_Parse c])"
    if "reference_Parse ext c = Some err" for err
    using F that unfolding b by simp
  have h: "PullAndGetImageInfo_resolved ext opt st [c] [] =
          (Inl (errors_Errorf ''image %q not found in local store'' [ArgString c]), st,
           [Call_reference_Parse c, Call_store_Image (c @ '':'' @ DefaultTag),
            Call_store_Image c])"
    if "reference_Parse ext c = None \<and> storeLookup ext st c = None"
    using F that unfolding b by simp
  have i: "PullAndGetImageInfo_resolved ext opt st [c] [] =
          (case ParseStoreReference ext st (ID img) of
             Inl err \<Rightarrow>
               (Inl (errors_Wrapf err ''error parsing reference to image %q''
                       [ArgString (ID img)]),
                st,
                Call_reference_Parse c # storeLookupCalls ext st c
                @ [Call_ParseStoreReference (ID img)])
           | Inr ref \<Rightarrow>
               (case GetStoreImage ext st ref of
                  Inl err \<Rightarrow>
                    (Inl (errors_Wrapf err ''failed to parse image %q in local store''
                            [ArgString (ID img)]),
                     st,
                     Call_reference_Parse c # storeLookupCalls ext st c
                     @ [Call_ParseStoreReference (ID img), Call_GetStoreImage ref])
                | Inr img' \<Rightarrow>
                    (Inr (ref, img'), st,
                     Call_reference_Parse c # storeLookupCalls ext st c
                     @ [Call_ParseStoreReference (ID img), Call_GetStoreImage ref])))"
    if "reference_Parse ext c = None \<and> storeLookup ext st c = Some img \<and> ID img \<noteq> []"
    for img
  proof -
    from F that have "FindImage ext st c =
        (case ParseStoreReference ext st (ID img) of
           Inl err \<Rightarrow>
             (Inl (errors_Wrapf err ''error parsing reference to image %q''
                     [ArgString (ID img)]),
              Call_reference_Parse c # storeLookupCalls ext st c
              @ [Call_ParseStoreReference (ID img)])
         | Inr ref \<Rightarrow>
             (case GetStoreImage ext st ref of
                Inl err \<Rightarrow>
                  (Inl (errors_Wrapf err ''failed to parse image %q in local store''
                          [ArgString (ID img)]),
                   Call_reference_Parse c # storeLookupCalls ext st c
                   @ [Call_ParseStoreReference (ID img), Call_GetStoreImage ref])
              | Inr img' \<Rightarrow>
                  (Inr (ref, img'),
                   Call_reference_Parse c # storeLookupCalls ext st c
                   @ [Call_ParseStoreReference (ID img), Call_GetStoreImage ref])))"
      by blast
    then show ?thesis
      unfolding b by (simp split: sum.splits)
  qed
  have old: "(length candidates \<noteq> 1 \<longrightarrow>
      PullAndGetImageInfo_resolved ext opt st candidates [] =
        (Inl (errors_New ''transport is empty and multi or no image be found''), st, []))
   \<and> fst (PullAndGetImageInfo_resolved ext opt st [c] []) = fst (FindImage ext st c)
   \<and> fst (snd (PullAndGetImageInfo_resolved ext opt st [c] [])) = st
   \<and> snd (snd (PullAndGetImageInfo_resolved ext opt st [c] [])) = snd (FindImage ext st c)
   \<and> filter is_pull_event (snd (FindImage ext st c)) = []
   \<and> filter is_ParseImageName (snd (FindImage ext st c)) = []
   \<and> (reference_Parse ext c = None \<longrightarrow>
        take 2 (snd (FindImage ext st c)) =
          [Call_reference_Parse c, Call_store_Image (c @ '':'' @ DefaultTag)])"
    using a b d e f by simp
  from old g h i show ?thesis
    by (intro conjI allI impI) (blast | assumption)+
qed

theorem empty_transport_needs_one_candidate_witness:
  "length [''beae173ccac6'', ''busybox''] \<noteq> 1
   \<and> PullAndGetImageInfo_resolved example_ext example_opt example_store
        [''beae173ccac6'', ''busybox''] [] =
       (Inl (errors_New ''transport is empty and multi or no image be found''),
        example_store, [])
   \<and> reference_Parse example_ext ''beae173ccac6'' = None
   \<and> take 2 (snd (FindImage example_ext example_store ''beae173ccac6'')) =
       [Call_reference_Parse ''beae173ccac6'', Call_store_Image ''beae173ccac6:latest'']
   \<and> storeLookup example_ext example_store ''beae173ccac6'' =
       Some \<lparr>ID = ''beae173ccac6'', Names = [''busybox:latest'']\<rparr>
   \<and> PullAndGetImageInfo_resolved example_ext example_opt example_store [''beae173ccac6''] [] =
       (Inr (store_reference ''beae173ccac6'',
             \<lparr>ID = ''beae173ccac6'', Names = [''busybox:latest'']\<rparr>),
        example_store,
        [Call_reference_Parse ''beae173ccac6'', Call_store_Image ''beae173ccac6:latest'',
         Call_store_Image ''beae173ccac6'', Call_ParseStoreReference ''beae173ccac6'',
         Call_GetStoreImage (store_reference ''beae173ccac6'')])
   \<and> storeLookup example_ext example_store ''alpine'' = None
   \<and> fst (PullAndGetImageInfo_resolved example_ext example_opt example_store [''alpine''] []) =
       Inl (errors_Errorf ''image %q not found in local store'' [ArgString ''alpine''])"
proof -
  let ?img = "\<lparr>ID = ''beae173ccac6'', Names = [''busybox:latest'']\<rparr>"
  have h1: "length [''beae173ccac6'', ''busybox''] \<noteq> 1" by simp
  have h2: "reference_Parse example_ext ''beae173ccac6'' = None"
    "reference_Parse example_ext ''alpine'' = None"
    by (simp_all add: example_ext_def)
  have l: "storeLookup example_ext example_store ''beae173ccac6'' = Some ?img"
    "storeLookup example_ext example_store ''alpine'' = None"
    by (simp_all add: storeLookup_def example_ext_def example_store_def DefaultTag_def)
  have lc: "storeLookupCalls example_ext example_store ''beae173ccac6'' =
      [Call_store_Image ''beae173ccac6:latest'', Call_store_Image ''beae173ccac6'']"
    by (simp add: storeLookupCalls_def example_ext_def example_store_def DefaultTag_def)
  have p: "ParseStoreReference example_ext example_store ''beae173ccac6'' =
      Inr (store_reference ''beae173ccac6'')"
    "GetStoreImage example_ext example_store (store_reference ''beae173ccac6'') = Inr ?img"
    by (simp_all add: example_ext_def example_store_def store_reference_def)
  note T = empty_transport_needs_one_candidate
    [of "[''beae173ccac6'', ''busybox'']" example_ext example_opt example_store
        "''beae173ccac6''"]
  note U = empty_transport_needs_one_candidate
    [of "[''alpine'']" example_ext example_opt example_store "''alpine''"]
  have a: "PullAndGetImageInfo_resolved example_ext example_opt example_store
        [''beae173ccac6'', ''busybox''] [] =
       (Inl (errors_New ''transport is empty and multi or no image be found''),
        example_store, [])"
    using T h1 by blast
  have b: "take 2 (snd (FindImage example_ext example_store ''beae173ccac6'')) =
       [Call_reference_Parse ''beae173ccac6'', Call_store_Image ''beae173ccac6:latest'']"
    using T h2(1) by (simp add: DefaultTag_def)
  have i: "ID ?img \<noteq> []" by simp
  from T h2(1) l(1) i
  have "PullAndGetImageInfo_resolved example_ext example_opt example_store [''beae173ccac6''] [] =
      (case ParseStoreReference example_ext example_store (ID ?img) of
             Inl err \<Rightarrow>
               (Inl (errors_Wrapf err ''error parsing reference to image %q''
                       [ArgString (ID ?img)]),
                example_store,
                Call_reference_Parse ''beae173ccac6''
                # storeLookupCalls example_ext example_store ''beae173ccac6''
                @ [Call_ParseStoreReference (ID ?img)])
           | Inr ref \<Rightarrow>
               (case GetStoreImage example_ext example_store ref of
                  Inl err \<Rightarrow>
                    (Inl (errors_Wrapf err ''failed to parse image %q in local store''
                            [ArgString (ID ?img)]),
                     example_store,
                     Call_reference_Parse ''beae173ccac6''
                     # storeLookupCalls example_ext example_store ''beae173ccac6''
                     @ [Call_ParseStoreReference (ID ?img), Call_GetStoreImage ref])
                | Inr img' \<Rightarrow>
                    (Inr (ref, img'), example_store,
                     Call_reference_Parse ''beae173ccac6''
                     # storeLookupCalls example_ext example_store ''beae173ccac6''
                     @ [Call_ParseStoreReference (ID ?img), Call_GetStoreImage ref])))"
    by blast
  then have c: "PullAndGetImageInfo_resolved example_ext example_opt example_store
        [''beae173ccac6''] [] =
       (Inr (store_reference ''beae173ccac6'', ?img), example_store,
        [Call_reference_Parse ''beae173ccac6'', Call_store_Image ''beae173ccac6:latest'',
         Call_store_Image ''beae173ccac6'', Call_ParseStoreReference ''beae173ccac6'',
         Call_GetStoreImage (store_reference ''beae173ccac6'')])"
    by (simp add: p lc)
  from U h2(2) l(2)
  have "PullAndGetImageInfo_resolved example_ext example_opt example_store [''alpine''] [] =
          (Inl (errors_Errorf ''image %q not found in local store'' [ArgString ''alpine'']),
           example_store,
           [Call_reference_Parse ''alpine'', Call_store_Image (''alpine'' @ '':'' @ DefaultTag),
            Call_store_Image ''alpine''])"
    by blast
  then have d: "fst (PullAndGetImageInfo_resolved example_ext example_opt example_store
       [''alpine''] []) =
       Inl (errors_Errorf ''image %q not found in local store'' [ArgString ''alpine''])"
    by simp
  show ?thesis
    using h1 a h2(1) b l c d by simp
qed

subsection \<open>C10: the default path prefix and names with a slash\<close>

text \<open>
  Claim C10. In the registry-search fallback a name that contains a slash gives, for
  every registry tried, the plain join of the registry and the name, also for a
  registry that has a default path prefix. For a name without a slash the prefix of a
  registry that has one is put between the registry and the name.
\<close>

theorem path_prefix_only_without_slash:
  "(CHR ''/'' \<in> set name \<longrightarrow>
      fst (fst (tryResolveNameInRegistries ext name)) =
        map (\<lambda>registry. path_Join [registry, name])
          (''localhost'' # filter (\<lambda>r. registryAccepted ext r \<and> r \<noteq> []) (configuredRegistries ext)))
   \<and> (CHR ''/'' \<notin> set name \<longrightarrow>
      fst (fst (tryResolveNameInRegistries ext name)) =
        map (\<lambda>registry.
               case DefaultRegistryPathPrefix ext registry of
                 None \<Rightarrow> path_Join [registry, name]
               | Some p \<Rightarrow> path_Join [registry, p, name])
          (''localhost'' # filter (\<lambda>r. registryAccepted ext r \<and> r \<noteq> []) (configuredRegistries ext)))"
proof -
  have a: "CHR ''/'' \<in> set name \<Longrightarrow> candidateFor ext name = (\<lambda>registry. path_Join [registry, name])"
    by (rule ext) (simp add: candidateFor_def split: option.splits)
  have b: "CHR ''/'' \<notin> set name \<Longrightarrow> candidateFor ext name =
      (\<lambda>registry. case DefaultRegistryPathPrefix ext registry of
                 None \<Rightarrow> path_Join [registry, name]
               | Some p \<Rightarrow> path_Join [registry, p, name])"
    by (rule ext) (simp add: candidateFor_def split: option.splits)
  show ?thesis
    using a b
    by (simp add: tryResolveNameInRegistries_def Let_def keepRegistries_filter buildCandidates_map
      configuredRegistries_def)
qed


theorem path_prefix_only_without_slash_witness:
  "CHR ''/'' \<in> set ''isula/app''
   \<and> DefaultRegistryPathPrefix example_ext ''docker.io'' = Some ''library''
   \<and> fst (fst (tryResolveNameInRegistries example_ext ''isula/app'')) =
       [''localhost/isula/app'', ''docker.io/isula/app'', ''quay.io/isula/app'']
   \<and> CHR ''/'' \<notin> set ''busybox''
   \<and> fst (fst (tryResolveNameInRegistries example_ext ''busybox'')) =
       [''localhost/busybox'', ''docker.io/library/busybox'', ''quay.io/busybox'']"
proof -
  have h1: "CHR ''/'' \<in> set ''isula/app''" by simp
  have h2: "CHR ''/'' \<notin> set ''busybox''" by simp
  have d: "DefaultRegistryPathPrefix example_ext ''docker.io'' = Some ''library''"
    "DefaultRegistryPathPrefix example_ext ''localhost'' = None"
    "DefaultRegistryPathPrefix example_ext ''quay.io'' = None"
    by (simp_all add: example_ext_def)
  have k: "filter (\<lambda>r. registryAccepted example_ext r \<and> r \<noteq> [])
      (configuredRegistries example_ext) = [''docker.io'', ''quay.io'']"
    by (simp add: registryAccepted_def configuredRegistries_def example_ext_def)
  have j: "path_Join [''localhost'', ''isula/app''] = ''localhost/isula/app''"
    "path_Join [''docker.io'', ''isula/app''] = ''docker.io/isula/app''"
    "path_Join [''quay.io'', ''isula/app''] = ''quay.io/isula/app''"
    "path_Join [''localhost'', ''busybox''] = ''localhost/busybox''"
    "path_Join [''docker.io'', ''library'', ''busybox''] = ''docker.io/library/busybox''"
    "path_Join [''quay.io'', ''busybox''] = ''quay.io/busybox''"
    by (simp_all add: path_Join_def path_Clean_def path_elements_def clean_step_def)
  show ?thesis
    using h1 h2 d(1)
      path_prefix_only_without_slash [of "''isula/app''" example_ext, THEN conjunct1]
      path_prefix_only_without_slash [of "''busybox''" example_ext, THEN conjunct2]
    by (simp add: k j d)
qed

end
